theory Spec2Isabelle
  imports Complex_Main "HOL-Library.Word"
begin

unbundle bit_operations_syntax

section \<open>The json-parser engine (json.cpp) as a shallow embedding\<close>

text \<open>
  The model follows \<^verbatim>\<open>json.cpp\<close> function by function. Platform constants are those of an
  LP64 target: \<^verbatim>\<open>unsigned int\<close> and \<^verbatim>\<open>int\<close> have 32 bits, \<^verbatim>\<open>unsigned long\<close>, \<^verbatim>\<open>long\<close>,
  \<^verbatim>\<open>size_t\<close> and pointers have 64 bits, \<^verbatim>\<open>sizeof (object_entry)\<close> is 24.

  Pointers are addresses (\<open>0\<close> is \<^verbatim>\<open>nullptr\<close>); memory is an explicit store from addresses to
  blocks. Whatever is undefined behaviour in C++ (reading the input out of range, using a
  shell of fewer bytes than a \<^verbatim>\<open>json_value\<close>, writing a payload buffer beyond its capacity,
  dereferencing a null or dangling pointer, reading an uninitialised slot) is an outcome of
  its own in the model, never a value.

  The arithmetic of \<^verbatim>\<open>double\<close> is idealised: a \<^verbatim>\<open>double\<close> is a real number and
  \<^verbatim>\<open>std::pow\<close>, the conversions and the products are exact.
\<close>

subsection \<open>Data model (json.hpp, json.cpp lines 39-115)\<close>

type_synonym addr = nat

datatype json_type =
  json_object | json_array | json_integer | json_double | json_string | json_boolean | json_null

text \<open>
  The member \<^verbatim>\<open>_reserved\<close> is a union of \<^verbatim>\<open>next_alloc\<close>, a node pointer, and \<^verbatim>\<open>object_mem\<close>,
  a character pointer into the payload of an object: an allocation and an offset into its
  packed names.
\<close>

datatype reserved = Next_alloc addr | Object_mem addr nat

text \<open>
  A node. The members of the union \<^verbatim>\<open>u\<close> are separate fields, except that the three
  \<^verbatim>\<open>length\<close> members are one field, as are the three pointers \<^verbatim>\<open>string.ptr\<close>,
  \<^verbatim>\<open>object.values\<close> and \<^verbatim>\<open>array.values\<close>: the code increments \<^verbatim>\<open>u.array.length\<close> of objects and
  uses \<^verbatim>\<open>u.object.values\<close> as a byte counter in the first pass.
\<close>

record json_value =
  parent :: addr
  vtype :: json_type
  u_boolean :: bool
  u_integer :: "64 word"
  u_dbl :: real
  u_length :: "32 word"
  u_values :: nat
  reserved :: reserved

record object_entry =
  name :: "(addr \<times> nat) option"
  name_length :: "32 word option"
  entry_value :: "addr option"

text \<open>
  What a granted allocation holds: a node shell, the characters of a string, the child
  pointers of an array, or the entries of an object followed by its packed names. Storage
  that \<^verbatim>\<open>malloc\<close> leaves uninitialised is \<open>None\<close>.
\<close>

datatype block =
    Node json_value
  | Chars "char option list"
  | Values "addr option list"
  | Entries "object_entry list" "char option list"

text \<open>
  The allocate capability of the caller is an oracle: given the number of earlier calls
  and the requested size, it grants the request or returns null. The memory records the
  live blocks and every invocation of the two capabilities.
\<close>

record mem =
  heap :: "addr \<Rightarrow> block option"
  brk :: addr
  alloc_calls :: "(nat \<times> bool) list"
  free_calls :: "addr list"

record settings =
  max_memory :: "64 word"
  allow_comments :: bool
  mem_alloc :: "(nat \<Rightarrow> nat \<Rightarrow> bool) option"
  mem_free :: bool
  value_extra :: "64 word"

record json_state =
  used_memory :: "64 word"
  uint_max :: "32 word"
  ulong_max :: "64 word"
  settings :: settings
  first_pass :: int
  ptr :: int
  cur_line :: "32 word"
  cur_col :: "32 word"

datatype flag =
    flag_next | flag_reproc | flag_need_comma | flag_seek_value | flag_escaped | flag_string
  | flag_need_colon | flag_done | flag_num_negative | flag_num_zero | flag_num_e
  | flag_num_e_got_sign | flag_num_e_negative | flag_line_comment | flag_block_comment

text \<open>
  An error message: the format string it is printed with, the line and column passed to
  it (\<^verbatim>\<open>LINE_AND_COL\<close>), and the character passed to it, where it has one.
\<close>

datatype error_kind =
    Unexpected_EOF_in_string | Invalid_character_value | Unexpected_EOF_in_block_comment
  | Comment_not_allowed_here | EOF_unexpected | Unexpected_in_comment_opening_sequence
  | Trailing_garbage | Unexpected_closing_bracket | Expected_comma_before
  | Expected_colon_before | Unexpected_when_seeking_value | Expected_comma_before_quote
  | Unexpected_in_object | Unexpected_0_before | Expected_digit_before_dot
  | Expected_digit_after_dot | Expected_digit_after_e | Unknown_value
  | Memory_allocation_failure | Too_long_caught_overflow | Unknown_error

datatype error = Error error_kind "(32 word \<times> 32 word) option" "char option"

text \<open>The local variables of \<^verbatim>\<open>json::parse\<close>, with the memory they work on.\<close>

record locals =
  state :: json_state
  topv :: addr
  rootv :: addr
  alloc :: addr
  flags :: "flag set"
  stringp :: "addr \<times> nat"
  string_length :: "32 word"
  num_digits :: "64 word"
  num_e :: "64 word"
  num_fraction :: "64 word"
  error :: "error option"
  memory :: mem

subsection \<open>Memory\<close>

definition default_alloc :: "nat \<Rightarrow> nat \<Rightarrow> bool" where
  "default_alloc k sz = True"

text \<open>
  One invocation of the allocate capability: the call is logged; a granted block is placed
  at a fresh address with the contents \<open>init\<close> the caller's cast gives it.
\<close>

definition call_mem_alloc :: "(nat \<Rightarrow> nat \<Rightarrow> bool) \<Rightarrow> nat \<Rightarrow> bool \<Rightarrow> block \<Rightarrow> mem \<Rightarrow> addr \<times> mem" where
  "call_mem_alloc cap sz zero init m =
     (let m1 = m\<lparr>alloc_calls := alloc_calls m @ [(sz, zero)]\<rparr> in
      if cap (length (alloc_calls m)) sz
      then (brk m, m1\<lparr>heap := (heap m)(brk m \<mapsto> init), brk := brk m + 1\<rparr>)
      else (0, m1))"

text \<open>
  One invocation of the free capability. Freeing null releases nothing; freeing an address
  that is not live is undefined (\<open>None\<close>).
\<close>

definition call_mem_free :: "addr \<Rightarrow> mem \<Rightarrow> mem option" where
  "call_mem_free p m =
     (let m1 = m\<lparr>free_calls := free_calls m @ [p]\<rparr> in
      if p = 0 then Some m1
      else if heap m p = None then None
      else Some (m1\<lparr>heap := (heap m)(p := None)\<rparr>))"

definition get_node :: "mem \<Rightarrow> addr \<Rightarrow> json_value option" where
  "get_node m p =
     (if p = 0 then None else case heap m p of Some (Node v) \<Rightarrow> Some v | _ \<Rightarrow> None)"

definition set_node :: "addr \<Rightarrow> json_value \<Rightarrow> mem \<Rightarrow> mem" where
  "set_node p v m = m\<lparr>heap := (heap m)(p \<mapsto> Node v)\<rparr>"

subsection \<open>hex_value (lines 88-102)\<close>

definition isdigit :: "char \<Rightarrow> bool" where
  "isdigit c = (48 \<le> (of_char c :: nat) \<and> (of_char c :: nat) \<le> 57)"

definition hex_value :: "char \<Rightarrow> 8 word" where
  "hex_value c =
     (if isdigit c then of_nat (of_char c - 48)
      else if c = CHR ''a'' \<or> c = CHR ''A'' then 0x0A
      else if c = CHR ''b'' \<or> c = CHR ''B'' then 0x0B
      else if c = CHR ''c'' \<or> c = CHR ''C'' then 0x0C
      else if c = CHR ''d'' \<or> c = CHR ''D'' then 0x0D
      else if c = CHR ''e'' \<or> c = CHR ''E'' then 0x0E
      else if c = CHR ''f'' \<or> c = CHR ''F'' then 0x0F
      else 0xFF)"

subsection \<open>json_alloc (lines 125-135)\<close>

text \<open>
  The result is the pointer (\<open>0\<close> on refusal), the state with its counter, and the memory.
  A null \<^verbatim>\<open>mem_alloc\<close> has been replaced by \<^verbatim>\<open>default_alloc\<close> at the start of \<^verbatim>\<open>parse\<close>;
  the model resolves it here.
\<close>

definition json_alloc :: "json_state \<Rightarrow> mem \<Rightarrow> 64 word \<Rightarrow> bool \<Rightarrow> block \<Rightarrow> addr \<times> json_state \<times> mem" where
  "json_alloc st m sz zero init =
     (if ulong_max st - used_memory st < sz then (0, st, m)
      else if max_memory (settings st) \<noteq> 0 then
        (let st1 = st\<lparr>used_memory := used_memory st + sz\<rparr> in
         if used_memory st1 > max_memory (settings st) then (0, st1, m)
         else (let (p, m1) = call_mem_alloc
                       (case mem_alloc (settings st) of None \<Rightarrow> default_alloc | Some f \<Rightarrow> f)
                       (unat sz) zero init m
               in (p, st1, m1)))
      else (let (p, m1) = call_mem_alloc
                    (case mem_alloc (settings st) of None \<Rightarrow> default_alloc | Some f \<Rightarrow> f)
                    (unat sz) zero init m
            in (p, st, m1)))"


subsection \<open>new_value (lines 137-216)\<close>

definition zero_value :: json_value where
  "zero_value =
     \<lparr>parent = 0, vtype = json_null, u_boolean = False, u_integer = 0, u_dbl = 0,
      u_length = 0, u_values = 0, reserved = Next_alloc 0\<rparr>"

definition empty_entry :: object_entry where
  "empty_entry = \<lparr>name = None, name_length = None, entry_value = None\<rparr>"

text \<open>
  Building pass: the next shell of the chain becomes \<^verbatim>\<open>top\<close> and gets its payload. Reading
  \<^verbatim>\<open>next_alloc\<close> of a shell whose \<^verbatim>\<open>_reserved\<close> holds \<^verbatim>\<open>object_mem\<close> is undefined. The size
  of an object's payload, \<open>payload_size\<close>, is computed as the code does at lines 168-171:
  \<^verbatim>\<open>values_size\<close>, the size of the entries, is an \<^verbatim>\<open>int\<close> (line 142), and the count of the bytes
  of the names kept in \<^verbatim>\<open>u.object.values\<close> by the counting pass is added to it as an
  \<^verbatim>\<open>unsigned long\<close>. Where that size is less than the size of the entries and names the
  payload is used for, the use of the payload is undefined.
\<close>

definition payload_size :: "json_value \<Rightarrow> 64 word" where
  "payload_size v =
     (let values_size = (word_of_nat (24 * unat (u_length v)) :: 32 word)
      in scast values_size + word_of_nat (u_values v))"

definition new_value_second :: "locals \<Rightarrow> (bool \<times> locals) option" where
  "new_value_second l =
     (case get_node (memory l) (alloc l) of
        None \<Rightarrow> None
      | Some v \<Rightarrow>
          (case reserved v of
             Object_mem a off \<Rightarrow> None
           | Next_alloc nxt \<Rightarrow>
               (let val = alloc l;
                    l1 = l\<lparr>topv := val, alloc := nxt,
                           rootv := (if rootv l = 0 then val else rootv l)\<rparr>
                in case vtype v of
                     json_array \<Rightarrow>
                       (if u_length v = 0 then Some (True, l1)
                        else (let (p, st1, m1) =
                                    json_alloc (state l1) (memory l1) (ucast (u_length v) * 8) False
                                      (Values (replicate (unat (u_length v)) None))
                              in if p = 0
                                 then Some (False, l1\<lparr>state := st1,
                                        memory := set_node val (v\<lparr>u_values := 0\<rparr>) m1\<rparr>)
                                 else Some (True, l1\<lparr>state := st1,
                                        memory := set_node val (v\<lparr>u_values := p, u_length := 0\<rparr>) m1\<rparr>)))
                   | json_object \<Rightarrow>
                       (if u_length v = 0 then Some (True, l1)
                        else (let sz = payload_size v;
                                  (p, st1, m1) =
                                    json_alloc (state l1) (memory l1) sz False
                                      (Entries (replicate (unat (u_length v)) empty_entry)
                                               (replicate (u_values v) None))
                              in if p = 0
                                 then Some (False, l1\<lparr>state := st1,
                                        memory := set_node val (v\<lparr>u_values := 0\<rparr>) m1\<rparr>)
                                 else if unat sz < 24 * unat (u_length v) + u_values v then None
                                 else Some (True, l1\<lparr>state := st1,
                                        memory := set_node val
                                          (v\<lparr>u_values := p, reserved := Object_mem p 0,
                                             u_length := 0\<rparr>) m1\<rparr>)))
                   | json_string \<Rightarrow>
                       (let (p, st1, m1) =
                              json_alloc (state l1) (memory l1) (ucast (u_length v + 1)) False
                                (Chars (replicate (unat (u_length v + 1)) None))
                        in if p = 0
                           then Some (False, l1\<lparr>state := st1,
                                  memory := set_node val (v\<lparr>u_values := 0\<rparr>) m1\<rparr>)
                           else Some (True, l1\<lparr>state := st1,
                                  memory := set_node val (v\<lparr>u_values := p, u_length := 0\<rparr>) m1\<rparr>))
                   | _ \<Rightarrow> Some (True, l1))))"

text \<open>
  Counting pass: a zeroed shell is requested and appended to the chain of shells. The size
  requested is \<^verbatim>\<open>sizeof (value) + value_extra\<close>, with \<^verbatim>\<open>value\<close> the pointer (8 bytes) and not the
  \<^verbatim>\<open>json_value\<close> it points to, which has \<^verbatim>\<open>sizeof_json_value\<close> = 40 bytes (\<^verbatim>\<open>parent\<close> at offset
  0, \<^verbatim>\<open>type\<close> at 8, \<^verbatim>\<open>u\<close> at 16, \<^verbatim>\<open>_reserved\<close> at 32). The code then uses the shell as a
  \<^verbatim>\<open>json_value\<close>: it writes \<^verbatim>\<open>type\<close> and \<^verbatim>\<open>parent\<close> at once (lines 204-205) and \<^verbatim>\<open>u\<close> and
  \<^verbatim>\<open>_reserved\<close> later in the same call of \<^verbatim>\<open>parse\<close>. A granted shell of fewer than 40 bytes is
  therefore accessed beyond its end; the model gives the undefined outcome as soon as such
  a shell has been granted.
\<close>

definition sizeof_json_value :: nat where
  "sizeof_json_value = 40"

definition new_value_first :: "locals \<Rightarrow> json_type \<Rightarrow> (bool \<times> locals) option" where
  "new_value_first l ty =
     (let sz = 8 + value_extra (settings (state l));
          (p, st1, m1) = json_alloc (state l) (memory l) sz True (Node zero_value)
      in if p = 0 then Some (False, l\<lparr>state := st1, memory := m1\<rparr>)
         else if unat sz < sizeof_json_value then None
         else (let m2 = set_node p (zero_value\<lparr>vtype := ty, parent := topv l\<rparr>) m1;
                   l1 = l\<lparr>state := st1, rootv := (if rootv l = 0 then p else rootv l)\<rparr>
               in if alloc l \<noteq> 0
                  then (case get_node m2 (alloc l) of
                          None \<Rightarrow> None
                        | Some a \<Rightarrow>
                            Some (True, l1\<lparr>alloc := p, topv := p,
                                   memory := set_node (alloc l) (a\<lparr>reserved := Next_alloc p\<rparr>) m2\<rparr>))
                  else Some (True, l1\<lparr>alloc := p, topv := p, memory := m2\<rparr>)))"

definition new_value :: "locals \<Rightarrow> json_type \<Rightarrow> (bool \<times> locals) option" where
  "new_value l ty =
     (if first_pass (state l) = 0 then new_value_second l else new_value_first l ty)"


subsection \<open>The body of the scanning loop of json::parse (lines 286-853)\<close>

text \<open>
  How one iteration ends: \<^verbatim>\<open>continue\<close> (or the end of the body), \<^verbatim>\<open>break\<close>, a jump to
  \<^verbatim>\<open>e_failed\<close> with the message set, or undefined behaviour. \<open>Fall\<close> is control leaving a
  block of the body for the next block.
\<close>

datatype ctl = Continue locals | Break locals | Failed locals | Fall locals | Undefined

definition after :: "ctl \<Rightarrow> (locals \<Rightarrow> ctl) \<Rightarrow> ctl" where
  "after r f = (case r of Fall l \<Rightarrow> f l | _ \<Rightarrow> r)"

definition LINE_AND_COL :: "locals \<Rightarrow> (32 word \<times> 32 word) option" where
  "LINE_AND_COL l = Some (cur_line (state l), cur_col (state l))"

definition failed :: "locals \<Rightarrow> error_kind \<Rightarrow> char option \<Rightarrow> ctl" where
  "failed l k c = Failed (l\<lparr>error := Some (Error k (LINE_AND_COL l) c)\<rparr>)"

definition e_unknown_value :: "locals \<Rightarrow> ctl" where
  "e_unknown_value l = failed l Unknown_value None"

definition e_alloc_failure :: "locals \<Rightarrow> ctl" where
  "e_alloc_failure l = Failed (l\<lparr>error := Some (Error Memory_allocation_failure None None)\<rparr>)"

definition e_overflow :: "locals \<Rightarrow> ctl" where
  "e_overflow l = failed l Too_long_caught_overflow None"

definition deref :: "char list \<Rightarrow> int \<Rightarrow> char option" where
  "deref json p = (if 0 \<le> p \<and> p < int (length json) then Some (json ! nat p) else None)"

definition cur_byte :: "char list \<Rightarrow> int \<Rightarrow> char option" where
  "cur_byte json p = (if p = int (length json) then Some (CHR 0x00) else deref json p)"

definition advance :: "int \<Rightarrow> locals \<Rightarrow> locals" where
  "advance k l = l\<lparr>state := (state l)\<lparr>ptr := ptr (state l) + k\<rparr>\<rparr>"

definition is_whitespace :: "char \<Rightarrow> bool" where
  "is_whitespace b = (b = CHR 0x0A \<or> b = CHR '' '' \<or> b = CHR 0x09 \<or> b = CHR 0x0D)"

definition WHITESPACE :: "char \<Rightarrow> locals \<Rightarrow> locals" where
  "WHITESPACE b l =
     (if b = CHR 0x0A
      then l\<lparr>state := (state l)\<lparr>cur_line := cur_line (state l) + 1, cur_col := 0\<rparr>\<rparr>
      else l)"

paragraph \<open>Strings (lines 289-432)\<close>

definition write_char :: "mem \<Rightarrow> addr \<times> nat \<Rightarrow> nat \<Rightarrow> char \<Rightarrow> mem option" where
  "write_char m s i c =
     (case heap m (fst s) of
        Some (Chars cs) \<Rightarrow>
          if snd s + i < length cs
          then Some (m\<lparr>heap := (heap m)(fst s \<mapsto> Chars (cs[snd s + i := Some c]))\<rparr>)
          else None
      | Some (Entries es ns) \<Rightarrow>
          if snd s + i < length ns
          then Some (m\<lparr>heap := (heap m)(fst s \<mapsto> Entries es (ns[snd s + i := Some c]))\<rparr>)
          else None
      | _ \<Rightarrow> None)"

definition STRING_ADD :: "locals \<Rightarrow> char \<Rightarrow> locals option" where
  "STRING_ADD l c =
     (if first_pass (state l) = 0
      then (case write_char (memory l) (stringp l) (unat (string_length l)) c of
              None \<Rightarrow> None
            | Some m \<Rightarrow> Some (l\<lparr>memory := m, string_length := string_length l + 1\<rparr>))
      else Some (l\<lparr>string_length := string_length l + 1\<rparr>))"

fun write_chars :: "locals \<Rightarrow> char list \<Rightarrow> locals option" where
  "write_chars l [] = Some l"
| "write_chars l (c # cs) =
     (case write_char (memory l) (stringp l) (unat (string_length l)) c of
        None \<Rightarrow> None
      | Some m \<Rightarrow> write_chars (l\<lparr>memory := m, string_length := string_length l + 1\<rparr>) cs)"

definition string_add_bytes :: "locals \<Rightarrow> char list \<Rightarrow> locals option" where
  "string_add_bytes l cs =
     (if first_pass (state l) \<noteq> 0
      then Some (l\<lparr>string_length := string_length l + word_of_nat (length cs)\<rparr>)
      else write_chars l cs)"

definition read_hex4 :: "char list \<Rightarrow> int \<Rightarrow> 32 word option" where
  "read_hex4 json p =
     (let uc_b1 = hex_value (json ! nat (p + 1));
          uc_b2 = hex_value (json ! nat (p + 2));
          uc_b3 = hex_value (json ! nat (p + 3));
          uc_b4 = hex_value (json ! nat (p + 4))
      in if uc_b1 = 0xFF \<or> uc_b2 = 0xFF \<or> uc_b3 = 0xFF \<or> uc_b4 = 0xFF then None
         else (let c1 = (push_bit 4 uc_b1 OR uc_b2 :: 8 word);
                   c2 = (push_bit 4 uc_b3 OR uc_b4 :: 8 word)
               in Some (push_bit 8 (ucast c1) OR ucast c2)))"

definition utf8_bytes :: "32 word \<Rightarrow> char list" where
  "utf8_bytes uchar =
     (if uchar \<le> 0x7FF
      then [char_of (unat (0xC0 OR drop_bit 6 uchar)),
            char_of (unat (0x80 OR (uchar AND 0x3F)))]
      else if uchar \<le> 0xFFFF
      then [char_of (unat (0xE0 OR drop_bit 12 uchar)),
            char_of (unat (0x80 OR (drop_bit 6 uchar AND 0x3F))),
            char_of (unat (0x80 OR (uchar AND 0x3F)))]
      else [char_of (unat (0xF0 OR drop_bit 18 uchar)),
            char_of (unat (0x80 OR (drop_bit 12 uchar AND 0x3F))),
            char_of (unat (0x80 OR (drop_bit 6 uchar AND 0x3F))),
            char_of (unat (0x80 OR (uchar AND 0x3F)))])"

definition add_uchar :: "locals \<Rightarrow> 32 word \<Rightarrow> ctl" where
  "add_uchar l uchar =
     (case (if uchar \<le> 0x7F then STRING_ADD l (char_of (unat uchar))
            else string_add_bytes l (utf8_bytes uchar)) of
        None \<Rightarrow> Undefined
      | Some l1 \<Rightarrow> Continue l1)"

text \<open>
  The escape \<^verbatim>\<open>\u\<close>: four hexadecimal digits and, for a code unit of the surrogate range,
  a second escape of four digits. The guards on \<^verbatim>\<open>end - state.ptr\<close> keep every read inside
  the input.
\<close>

definition unicode_escape :: "char list \<Rightarrow> char \<Rightarrow> locals \<Rightarrow> ctl" where
  "unicode_escape json b l =
     (let p = ptr (state l) in
      if int (length json) - p \<le> 4 then failed l Invalid_character_value (Some b)
      else case read_hex4 json p of
        None \<Rightarrow> failed l Invalid_character_value (Some b)
      | Some uchar \<Rightarrow>
          if uchar AND 0xF800 = 0xD800 then
            (if int (length json) - (p + 4) \<le> 6 \<or> json ! nat (p + 5) \<noteq> CHR 0x5C
                \<or> json ! nat (p + 6) \<noteq> CHR ''u''
             then failed l Invalid_character_value (Some b)
             else case read_hex4 json (p + 6) of
               None \<Rightarrow> failed l Invalid_character_value (Some b)
             | Some uchar2 \<Rightarrow>
                 add_uchar (advance 10 l)
                   (0x010000 OR push_bit 10 (uchar AND 0x3FF) OR (uchar2 AND 0x3FF)))
          else add_uchar (advance 4 l) uchar)"

definition escaped_char :: "char list \<Rightarrow> char \<Rightarrow> locals \<Rightarrow> ctl" where
  "escaped_char json b l =
     (if b = CHR ''u'' then unicode_escape json b l
      else case STRING_ADD l
             (if b = CHR ''b'' then CHR 0x08
              else if b = CHR ''f'' then CHR 0x0C
              else if b = CHR ''n'' then CHR 0x0A
              else if b = CHR ''r'' then CHR 0x0D
              else if b = CHR ''t'' then CHR 0x09
              else b) of
        None \<Rightarrow> Undefined
      | Some l1 \<Rightarrow> Continue l1)"

definition object_mem_of :: "reserved \<Rightarrow> addr \<times> nat" where
  "object_mem_of r = (case r of Object_mem a off \<Rightarrow> (a, off) | Next_alloc a \<Rightarrow> (a, 0))"

text \<open>
  The closing quote of an object member's name in the building pass: the entry at the fill
  cursor gets its name and the length of the name, and \<^verbatim>\<open>object_mem\<close> moves past the name.
\<close>

definition commit_name :: "mem \<Rightarrow> addr \<Rightarrow> json_value \<Rightarrow> 32 word \<Rightarrow> mem option" where
  "commit_name m tp t slen =
     (case heap m (u_values t) of
        Some (Entries es ns) \<Rightarrow>
          if u_values t \<noteq> 0 \<and> unat (u_length t) < length es
          then Some (set_node tp
                 (t\<lparr>reserved := Object_mem (fst (object_mem_of (reserved t)))
                                   (snd (object_mem_of (reserved t)) + unat (slen + 1))\<rparr>)
                 (m\<lparr>heap := (heap m)(u_values t \<mapsto>
                      Entries (es[unat (u_length t) :=
                                 (es ! unat (u_length t))
                                   \<lparr>name := Some (object_mem_of (reserved t)),
                                    name_length := Some slen\<rparr>]) ns)\<rparr>))
          else None
      | _ \<Rightarrow> None)"

definition string_close :: "locals \<Rightarrow> ctl" where
  "string_close l =
     (case (if first_pass (state l) = 0
            then write_char (memory l) (stringp l) (unat (string_length l)) (CHR 0x00)
            else Some (memory l)) of
        None \<Rightarrow> Undefined
      | Some m1 \<Rightarrow>
          (let l1 = l\<lparr>memory := m1, flags := flags l - {flag_string}, stringp := (0, 0)\<rparr> in
           case get_node m1 (topv l1) of
             None \<Rightarrow> Undefined
           | Some t \<Rightarrow>
               (case vtype t of
                  json_string \<Rightarrow>
                    Fall (l1\<lparr>memory := set_node (topv l1) (t\<lparr>u_length := string_length l1\<rparr>) m1,
                             flags := insert flag_next (flags l1)\<rparr>)
                | json_object \<Rightarrow>
                    (if first_pass (state l1) \<noteq> 0
                     then Continue (l1\<lparr>memory := set_node (topv l1)
                              (t\<lparr>u_values := (u_values t + unat (string_length l1 + 1)) mod 2 ^ 64\<rparr>) m1,
                            flags := flags l1 \<union> {flag_seek_value, flag_need_colon}\<rparr>)
                     else (case commit_name m1 (topv l1) t (string_length l1) of
                             None \<Rightarrow> Undefined
                           | Some m2 \<Rightarrow>
                               Continue (l1\<lparr>memory := m2,
                                 flags := flags l1 \<union> {flag_seek_value, flag_need_colon}\<rparr>)))
                | _ \<Rightarrow> Fall l1)))"

definition string_block :: "char list \<Rightarrow> char \<Rightarrow> locals \<Rightarrow> ctl" where
  "string_block json b l =
     (if b = CHR 0x00 then failed l Unexpected_EOF_in_string None
      else if string_length l > uint_max (state l) then e_overflow l
      else if flag_escaped \<in> flags l
      then escaped_char json b (l\<lparr>flags := flags l - {flag_escaped}\<rparr>)
      else if b = CHR 0x5C then Continue (l\<lparr>flags := insert flag_escaped (flags l)\<rparr>)
      else if b = CHR 0x22 then string_close l
      else (case STRING_ADD l b of None \<Rightarrow> Undefined | Some l1 \<Rightarrow> Continue l1))"


paragraph \<open>Comments (lines 434-491)\<close>

definition comment_block :: "char list \<Rightarrow> char \<Rightarrow> locals \<Rightarrow> ctl" where
  "comment_block json b l =
     (if allow_comments (settings (state l)) then
        (if flags l \<inter> {flag_line_comment, flag_block_comment} \<noteq> {} then
           (if flag_line_comment \<in> flags l then
              (if b = CHR 0x0D \<or> b = CHR 0x0A \<or> b = CHR 0x00
               then Continue (advance (- 1) (l\<lparr>flags := flags l - {flag_line_comment}\<rparr>))
               else Continue l)
            else if b = CHR 0x00 then failed l Unexpected_EOF_in_block_comment None
            else if b = CHR ''*'' \<and> ptr (state l) < int (length json) - 1
                    \<and> deref json (ptr (state l) + 1) = Some (CHR ''/'')
            then Continue (advance 1 (l\<lparr>flags := flags l - {flag_block_comment}\<rparr>))
            else Continue l)
         else if b = CHR ''/'' then
           (if flags l \<inter> {flag_seek_value, flag_done} = {} \<and> get_node (memory l) (topv l) = None
            then Undefined
            else if flags l \<inter> {flag_seek_value, flag_done} = {}
                    \<and> map_option vtype (get_node (memory l) (topv l)) \<noteq> Some json_object
            then failed l Comment_not_allowed_here None
            else (let l1 = advance 1 l in
                  if ptr (state l1) = int (length json) then failed l1 EOF_unexpected None
                  else case deref json (ptr (state l1)) of
                         None \<Rightarrow> Undefined
                       | Some b1 \<Rightarrow>
                           if b1 = CHR ''/''
                           then Continue (l1\<lparr>flags := insert flag_line_comment (flags l1)\<rparr>)
                           else if b1 = CHR ''*''
                           then Continue (l1\<lparr>flags := insert flag_block_comment (flags l1)\<rparr>)
                           else failed l1 Unexpected_in_comment_opening_sequence (Some b1)))
         else Fall l)
      else Fall l)"

paragraph \<open>After the root value (lines 493-507)\<close>

definition done_block :: "char \<Rightarrow> locals \<Rightarrow> ctl" where
  "done_block b l =
     (if flag_done \<in> flags l then
        (if b = CHR 0x00 then Break l
         else if is_whitespace b then Continue (WHITESPACE b l)
         else failed l Trailing_garbage (Some b))
      else Fall l)"

paragraph \<open>Seeking a value (lines 509-666)\<close>

fun match_keyword :: "char list \<Rightarrow> int \<Rightarrow> char list \<Rightarrow> (bool \<times> int) option" where
  "match_keyword json p [] = Some (True, p)"
| "match_keyword json p (c # cs) =
     (case deref json (p + 1) of
        None \<Rightarrow> None
      | Some x \<Rightarrow> if x \<noteq> c then Some (False, p + 1) else match_keyword json (p + 1) cs)"

text \<open>
  A literal \<^verbatim>\<open>true\<close>, \<^verbatim>\<open>false\<close> or \<^verbatim>\<open>null\<close>: the guard compares \<^verbatim>\<open>end - state.ptr\<close> with the
  number of characters after the first, \<open>n\<close>, and the characters are then read one by one.
\<close>

definition keyword :: "char list \<Rightarrow> locals \<Rightarrow> char list \<Rightarrow> json_type \<Rightarrow> bool \<Rightarrow> ctl" where
  "keyword json l rest ty bv =
     (if int (length json) - ptr (state l) < int (length rest) then e_unknown_value l
      else case match_keyword json (ptr (state l)) rest of
        None \<Rightarrow> Undefined
      | Some (ok, p) \<Rightarrow>
          (let l1 = l\<lparr>state := (state l)\<lparr>ptr := p\<rparr>\<rparr> in
           if \<not> ok then e_unknown_value l1
           else case new_value l1 ty of
             None \<Rightarrow> Undefined
           | Some (granted, l2) \<Rightarrow>
               if \<not> granted then e_alloc_failure l2
               else if bv then
                 (case get_node (memory l2) (topv l2) of
                    None \<Rightarrow> Undefined
                  | Some t \<Rightarrow>
                      Fall (l2\<lparr>memory := set_node (topv l2) (t\<lparr>u_boolean := True\<rparr>) (memory l2),
                               flags := insert flag_next (flags l2)\<rparr>))
               else Fall (l2\<lparr>flags := insert flag_next (flags l2)\<rparr>)))"

definition is_number_char :: "char \<Rightarrow> bool" where
  "is_number_char b =
     (isdigit b \<or> b = CHR ''+'' \<or> b = CHR ''-'' \<or> b = CHR ''e'' \<or> b = CHR ''E'' \<or> b = CHR ''.'')"

text \<open>
  The building pass steps over a numeric literal: \<open>skip_number\<close> is the loop of lines
  626-638 after its first increment, on the input that follows.
\<close>

fun skip_number :: "char list \<Rightarrow> int \<Rightarrow> int" where
  "skip_number [] p = p"
| "skip_number (c # cs) p = (if is_number_char c then skip_number cs (p + 1) else p)"

definition start_number :: "char list \<Rightarrow> char \<Rightarrow> locals \<Rightarrow> ctl" where
  "start_number json b l =
     (case new_value l json_integer of
        None \<Rightarrow> Undefined
      | Some (granted, l1) \<Rightarrow>
          if \<not> granted then e_alloc_failure l1
          else if first_pass (state l1) = 0 then
            Fall (l1\<lparr>state := (state l1)\<lparr>ptr :=
                       skip_number (drop (nat (ptr (state l1) + 1)) json) (ptr (state l1) + 1)\<rparr>,
                     flags := flags l1 \<union> {flag_next, flag_reproc}\<rparr>)
          else (let l2 = l1\<lparr>flags := flags l1 - {flag_num_negative, flag_num_e, flag_num_e_got_sign,
                                                     flag_num_e_negative, flag_num_zero},
                              num_digits := 0, num_fraction := 0, num_e := 0\<rparr>
                in if b \<noteq> CHR ''-'' then Fall (l2\<lparr>flags := insert flag_reproc (flags l2)\<rparr>)
                   else Continue (l2\<lparr>flags := insert flag_num_negative (flags l2)\<rparr>)))"

definition start_value :: "char list \<Rightarrow> char \<Rightarrow> locals \<Rightarrow> ctl" where
  "start_value json b l =
     (if b = CHR ''{'' then
        (case new_value l json_object of
           None \<Rightarrow> Undefined
         | Some (granted, l1) \<Rightarrow> if \<not> granted then e_alloc_failure l1 else Continue l1)
      else if b = CHR ''['' then
        (case new_value l json_array of
           None \<Rightarrow> Undefined
         | Some (granted, l1) \<Rightarrow>
             if \<not> granted then e_alloc_failure l1
             else Continue (l1\<lparr>flags := insert flag_seek_value (flags l1)\<rparr>))
      else if b = CHR 0x22 then
        (case new_value l json_string of
           None \<Rightarrow> Undefined
         | Some (granted, l1) \<Rightarrow>
             if \<not> granted then e_alloc_failure l1
             else (case get_node (memory l1) (topv l1) of
                     None \<Rightarrow> Undefined
                   | Some t \<Rightarrow>
                       Continue (l1\<lparr>flags := insert flag_string (flags l1),
                                   stringp := (u_values t, 0), string_length := 0\<rparr>)))
      else if b = CHR ''t'' then keyword json l ''rue'' json_boolean True
      else if b = CHR ''f'' then keyword json l ''alse'' json_boolean False
      else if b = CHR ''n'' then keyword json l ''ull'' json_null False
      else if isdigit b \<or> b = CHR ''-'' then start_number json b l
      else failed l Unexpected_when_seeking_value (Some b))"

definition value_block :: "char list \<Rightarrow> char \<Rightarrow> locals \<Rightarrow> ctl" where
  "value_block json b l =
     (if is_whitespace b then Continue (WHITESPACE b l)
      else if b = CHR '']'' then
        (if topv l \<noteq> 0 \<and> get_node (memory l) (topv l) = None then Undefined
         else if topv l \<noteq> 0 \<and> map_option vtype (get_node (memory l) (topv l)) = Some json_array
         then Fall (l\<lparr>flags := insert flag_next (flags l - {flag_need_comma, flag_seek_value})\<rparr>)
         else failed l Unexpected_closing_bracket None)
      else if flag_need_comma \<in> flags l then
        (if b = CHR '','' then Continue (l\<lparr>flags := flags l - {flag_need_comma}\<rparr>)
         else failed l Expected_comma_before (Some b))
      else if flag_need_colon \<in> flags l then
        (if b = CHR '':'' then Continue (l\<lparr>flags := flags l - {flag_need_colon}\<rparr>)
         else failed l Expected_colon_before (Some b))
      else start_value json b (l\<lparr>flags := flags l - {flag_seek_value}\<rparr>))"


paragraph \<open>Inside an object, inside a number (lines 667-809)\<close>

definition object_block :: "char \<Rightarrow> json_value \<Rightarrow> locals \<Rightarrow> ctl" where
  "object_block b t l =
     (if is_whitespace b then Continue (WHITESPACE b l)
      else if b = CHR 0x22 then
        (if flag_need_comma \<in> flags l then failed l Expected_comma_before_quote None
         else Fall (l\<lparr>flags := insert flag_string (flags l),
                      stringp := object_mem_of (reserved t), string_length := 0\<rparr>))
      else if b = CHR ''}'' then Fall (l\<lparr>flags := insert flag_next (flags l - {flag_need_comma})\<rparr>)
      else if b = CHR '','' \<and> flag_need_comma \<in> flags l
      then Fall (l\<lparr>flags := flags l - {flag_need_comma}\<rparr>)
      else failed l Unexpected_in_object (Some b))"

definition digit_of :: "char \<Rightarrow> 64 word" where
  "digit_of b = word_of_nat (of_char b - 48)"

definition pow10 :: "int \<Rightarrow> real" where
  "pow10 e = (if 0 \<le> e then 10 ^ nat e else 1 / 10 ^ nat (- e))"

definition to_double :: "64 word \<Rightarrow> real" where
  "to_double x = real_of_int (sint x)"

text \<open>Lines 796-804: the deferred sign, then the value is complete.\<close>

definition number_finish :: "json_value \<Rightarrow> locals \<Rightarrow> ctl" where
  "number_finish t l =
     (let t1 = (if flag_num_negative \<in> flags l
                then (if vtype t = json_integer then t\<lparr>u_integer := - u_integer t\<rparr>
                      else t\<lparr>u_dbl := - u_dbl t\<rparr>)
                else t)
      in Fall (l\<lparr>memory := set_node (topv l) t1 (memory l),
                 flags := flags l \<union> {flag_next, flag_reproc}\<rparr>))"

text \<open>Lines 759-794: a character that does not continue the literal.\<close>

definition number_commit :: "char \<Rightarrow> json_value \<Rightarrow> locals \<Rightarrow> ctl" where
  "number_commit b t l =
     (if flag_num_e \<notin> flags l then
        (if vtype t = json_double \<and> num_digits l = 0 then failed l Expected_digit_after_dot None
         else (let t1 = (if vtype t = json_double
                         then t\<lparr>u_dbl := u_dbl t + to_double (num_fraction l) / pow10 (sint (num_digits l))\<rparr>
                         else t)
               in if b = CHR ''e'' \<or> b = CHR ''E'' then
                    (let t2 = (if vtype t1 = json_integer
                               then t1\<lparr>vtype := json_double, u_dbl := to_double (u_integer t1)\<rparr>
                               else t1)
                     in Continue (l\<lparr>memory := set_node (topv l) t2 (memory l),
                                    flags := insert flag_num_e (flags l) - {flag_num_zero},
                                    num_digits := 0\<rparr>))
                  else number_finish t1 l))
      else if num_digits l = 0 then failed l Expected_digit_after_e None
      else number_finish
             (t\<lparr>u_dbl := u_dbl t * pow10 (sint (if flag_num_e_negative \<in> flags l
                                               then - num_e l else num_e l))\<rparr>) l)"

definition number_block :: "char \<Rightarrow> json_value \<Rightarrow> locals \<Rightarrow> ctl" where
  "number_block b t l =
     (if isdigit b then
        (let l1 = l\<lparr>num_digits := num_digits l + 1\<rparr> in
         if vtype t = json_integer \<or> flag_num_e \<in> flags l1 then
           (if flag_num_e \<notin> flags l1 then
              (if flag_num_zero \<in> flags l1 then failed l1 Unexpected_0_before (Some b)
               else (let l2 = (if num_digits l1 = 1 \<and> b = CHR ''0''
                               then l1\<lparr>flags := insert flag_num_zero (flags l1)\<rparr> else l1)
                     in Continue (l2\<lparr>memory := set_node (topv l2)
                                     (t\<lparr>u_integer := u_integer t * 10 + digit_of b\<rparr>) (memory l2)\<rparr>)))
            else Continue (l1\<lparr>flags := insert flag_num_e_got_sign (flags l1),
                              num_e := num_e l1 * 10 + digit_of b\<rparr>))
         else Continue (l1\<lparr>num_fraction := num_fraction l1 * 10 + digit_of b\<rparr>))
      else if (b = CHR ''+'' \<or> b = CHR ''-'') \<and> flag_num_e \<in> flags l
                \<and> flag_num_e_got_sign \<notin> flags l
      then Continue (l\<lparr>flags := flags l \<union>
                       (if b = CHR ''-'' then {flag_num_e_got_sign, flag_num_e_negative}
                        else {flag_num_e_got_sign})\<rparr>)
      else if \<not> (b = CHR ''+'' \<or> b = CHR ''-'') \<and> b = CHR ''.'' \<and> vtype t = json_integer then
        (if num_digits l = 0 then failed l Expected_digit_before_dot None
         else Continue (l\<lparr>memory := set_node (topv l)
                           (t\<lparr>vtype := json_double, u_dbl := to_double (u_integer t)\<rparr>) (memory l),
                        num_digits := 0\<rparr>))
      else number_commit b t l)"

definition type_block :: "char \<Rightarrow> locals \<Rightarrow> ctl" where
  "type_block b l =
     (case get_node (memory l) (topv l) of
        None \<Rightarrow> Undefined
      | Some t \<Rightarrow>
          (case vtype t of
             json_object \<Rightarrow> object_block b t l
           | json_integer \<Rightarrow> number_block b t l
           | json_double \<Rightarrow> number_block b t l
           | _ \<Rightarrow> Fall l))"

paragraph \<open>Re-processing and the completion of a value (lines 811-852)\<close>

text \<open>
  The building pass stores the completed value at the fill cursor of its parent: writing
  beyond the payload of the parent is undefined.
\<close>

definition link_child :: "mem \<Rightarrow> json_value \<Rightarrow> addr \<Rightarrow> mem option" where
  "link_child m pv child =
     (case vtype pv of
        json_object \<Rightarrow>
          (case heap m (u_values pv) of
             Some (Entries es ns) \<Rightarrow>
               if u_values pv \<noteq> 0 \<and> unat (u_length pv) < length es
               then Some (m\<lparr>heap := (heap m)(u_values pv \<mapsto>
                      Entries (es[unat (u_length pv) :=
                                 (es ! unat (u_length pv))\<lparr>entry_value := Some child\<rparr>]) ns)\<rparr>)
               else None
           | _ \<Rightarrow> None)
      | json_array \<Rightarrow>
          (case heap m (u_values pv) of
             Some (Values vs) \<Rightarrow>
               if u_values pv \<noteq> 0 \<and> unat (u_length pv) < length vs
               then Some (m\<lparr>heap := (heap m)(u_values pv \<mapsto>
                      Values (vs[unat (u_length pv) := Some child]))\<rparr>)
               else None
           | _ \<Rightarrow> None)
      | _ \<Rightarrow> Some m)"

definition next_block :: "locals \<Rightarrow> ctl" where
  "next_block l =
     (let l1 = l\<lparr>flags := insert flag_need_comma (flags l - {flag_next})\<rparr> in
      case get_node (memory l1) (topv l1) of
        None \<Rightarrow> Undefined
      | Some t \<Rightarrow>
          if parent t = 0 then Continue (l1\<lparr>flags := insert flag_done (flags l1)\<rparr>)
          else (case get_node (memory l1) (parent t) of
                  None \<Rightarrow> Undefined
                | Some pv \<Rightarrow>
                    (let l2 = (if vtype pv = json_array
                               then l1\<lparr>flags := insert flag_seek_value (flags l1)\<rparr> else l1)
                     in case (if first_pass (state l2) = 0
                              then link_child (memory l2) pv (topv l2) else Some (memory l2)) of
                          None \<Rightarrow> Undefined
                        | Some m1 \<Rightarrow>
                            (let l3 = l2\<lparr>memory :=
                                         set_node (parent t) (pv\<lparr>u_length := u_length pv + 1\<rparr>) m1\<rparr>
                             in if u_length pv + 1 > uint_max (state l3) then e_overflow l3
                                else Continue (l3\<lparr>topv := parent t\<rparr>)))))"

definition tail_block :: "locals \<Rightarrow> ctl" where
  "tail_block l =
     (let l1 = (if flag_reproc \<in> flags l
                then advance (- 1) (l\<lparr>flags := flags l - {flag_reproc}\<rparr>) else l)
      in if flag_next \<in> flags l1 then next_block l1 else Continue l1)"

paragraph \<open>One iteration, and the loop\<close>

definition body :: "char list \<Rightarrow> locals \<Rightarrow> ctl" where
  "body json l =
     (case cur_byte json (ptr (state l)) of
        None \<Rightarrow> Undefined
      | Some b \<Rightarrow>
          after (after (after (after
            (if flag_string \<in> flags l then string_block json b l else Fall l)
            (comment_block json b))
            (done_block b))
            (\<lambda>l1. if flag_seek_value \<in> flags l1 then value_block json b l1 else type_block b l1))
            tail_block)"

text \<open>
  The loop \<^verbatim>\<open>for (state.ptr = json;; ++ state.ptr)\<close>. It has no bound of its own: the
  result \<open>None\<close> is a loop that never ends.
\<close>

partial_function (option) scan :: "char list \<Rightarrow> locals \<Rightarrow> ctl option" where
  "scan json l =
     (case body json l of
        Continue l1 \<Rightarrow> scan json (advance 1 l1)
      | Fall l1 \<Rightarrow> scan json (advance 1 l1)
      | Break l1 \<Rightarrow> Some (Break l1)
      | Failed l1 \<Rightarrow> Some (Failed l1)
      | Undefined \<Rightarrow> Some Undefined)"

declare scan.simps [code]


subsection \<open>value_free (lines 900-946)\<close>

text \<open>
  Results are doubly optional: the outer \<open>None\<close> is a loop that never ends, the inner
  \<open>None\<close> is undefined behaviour.
\<close>

definition free_and_climb :: "addr \<Rightarrow> json_value \<Rightarrow> mem \<Rightarrow> (addr \<times> mem) option" where
  "free_and_climb val v m =
     (case call_mem_free val m of None \<Rightarrow> None | Some m1 \<Rightarrow> Some (parent v, m1))"

definition free_step :: "addr \<Rightarrow> mem \<Rightarrow> (addr \<times> mem) option" where
  "free_step val m =
     (case get_node m val of
        None \<Rightarrow> None
      | Some v \<Rightarrow>
          (case vtype v of
             json_array \<Rightarrow>
               (if u_length v = 0
                then (case call_mem_free (u_values v) m of
                        None \<Rightarrow> None
                      | Some m1 \<Rightarrow> free_and_climb val v m1)
                else (case heap m (u_values v) of
                        Some (Values vs) \<Rightarrow>
                          if u_values v \<noteq> 0 \<and> unat (u_length v - 1) < length vs
                          then (case vs ! unat (u_length v - 1) of
                                  None \<Rightarrow> None
                                | Some child \<Rightarrow>
                                    Some (child, set_node val (v\<lparr>u_length := u_length v - 1\<rparr>) m))
                          else None
                      | _ \<Rightarrow> None))
           | json_object \<Rightarrow>
               (if u_length v = 0
                then (case call_mem_free (u_values v) m of
                        None \<Rightarrow> None
                      | Some m1 \<Rightarrow> free_and_climb val v m1)
                else (case heap m (u_values v) of
                        Some (Entries es ns) \<Rightarrow>
                          if u_values v \<noteq> 0 \<and> unat (u_length v - 1) < length es
                          then (case entry_value (es ! unat (u_length v - 1)) of
                                  None \<Rightarrow> None
                                | Some child \<Rightarrow>
                                    Some (child, set_node val (v\<lparr>u_length := u_length v - 1\<rparr>) m))
                          else None
                      | _ \<Rightarrow> None))
           | json_string \<Rightarrow>
               (case call_mem_free (u_values v) m of
                  None \<Rightarrow> None
                | Some m1 \<Rightarrow> free_and_climb val v m1)
           | _ \<Rightarrow> free_and_climb val v m))"

partial_function (option) free_walk :: "addr \<Rightarrow> mem \<Rightarrow> mem option option" where
  "free_walk val m =
     (if val = 0 then Some (Some m)
      else case free_step val m of
             None \<Rightarrow> Some None
           | Some (val1, m1) \<Rightarrow> free_walk val1 m1)"

declare free_walk.simps [code]

definition value_free :: "settings \<Rightarrow> addr \<Rightarrow> mem \<Rightarrow> mem option option" where
  "value_free s val m =
     (if val = 0 then Some (Some m)
      else case get_node m val of
             None \<Rightarrow> Some None
           | Some v \<Rightarrow> free_walk val (set_node val (v\<lparr>parent := 0\<rparr>) m))"

definition zero_settings :: settings where
  "zero_settings =
     \<lparr>max_memory = 0, allow_comments = False, mem_alloc = None, mem_free = False,
      value_extra = 0\<rparr>"

text \<open>
  The zeroed settings with \<^verbatim>\<open>value_extra\<close> = 32: the least \<^verbatim>\<open>value_extra\<close> with which the shell
  requested by the counting pass, 8 + 32 bytes, holds a \<^verbatim>\<open>json_value\<close>.
\<close>

definition roomy_settings :: settings where
  "roomy_settings = zero_settings\<lparr>value_extra := 32\<rparr>"

definition value_free_default :: "addr \<Rightarrow> mem \<Rightarrow> mem option option" where
  "value_free_default val m = value_free (zero_settings\<lparr>mem_free := True\<rparr>) val m"

subsection \<open>json::parse (lines 246-898)\<close>

definition has_bom :: "char list \<Rightarrow> bool" where
  "has_bom json =
     (length json \<ge> 3 \<and> json ! 0 = CHR 0xEF \<and> json ! 1 = CHR 0xBB \<and> json ! 2 = CHR 0xBF)"

definition skip_bom :: "char list \<Rightarrow> char list" where
  "skip_bom json = (if has_bom json then drop 3 json else json)"

definition initial_state :: "settings \<Rightarrow> json_state" where
  "initial_state s =
     \<lparr>used_memory = 0, uint_max = - 1 - 8, ulong_max = - 1 - 8,
      settings = s\<lparr>mem_alloc := Some (case mem_alloc s of None \<Rightarrow> default_alloc | Some f \<Rightarrow> f),
                  mem_free := True\<rparr>,
      first_pass = 1, ptr = 0, cur_line = 0, cur_col = 0\<rparr>"

definition initial_locals :: "settings \<Rightarrow> mem \<Rightarrow> locals" where
  "initial_locals s m =
     \<lparr>state = initial_state s, topv = 0, rootv = 0, alloc = 0, flags = {},
      stringp = (0, 0), string_length = 0, num_digits = 0, num_e = 0, num_fraction = 0,
      error = None, memory = m\<rparr>"

text \<open>The head of the outer loop body (lines 278-286), for the pass \<open>fp\<close>.\<close>

definition start_pass :: "int \<Rightarrow> locals \<Rightarrow> locals" where
  "start_pass fp l =
     l\<lparr>state := (state l)\<lparr>first_pass := fp, cur_line := 1, ptr := 0\<rparr>,
       topv := 0, rootv := 0, flags := {flag_seek_value}, stringp := (0, 0),
       string_length := 0, num_digits := 0, num_e := 0, num_fraction := 0\<rparr>"

text \<open>The rollback loop of lines 883-887.\<close>

partial_function (option) free_chain :: "addr \<Rightarrow> mem \<Rightarrow> mem option option" where
  "free_chain a m =
     (if a = 0 then Some (Some m)
      else case get_node m a of
             None \<Rightarrow> Some None
           | Some v \<Rightarrow>
               (case reserved v of
                  Object_mem b off \<Rightarrow> Some None
                | Next_alloc nxt \<Rightarrow>
                    (case call_mem_free a m of
                       None \<Rightarrow> Some None
                     | Some m1 \<Rightarrow> free_chain nxt m1)))"

declare free_chain.simps [code]

text \<open>
  What a call of \<^verbatim>\<open>parse\<close> leaves: the pointer returned (\<open>0\<close> is no tree), the message
  copied to \<^verbatim>\<open>error_buf\<close> if there is one, and the memory.
\<close>

datatype outcome = Returned addr "error option" mem | Undefined_behaviour

definition e_failed :: "bool \<Rightarrow> locals \<Rightarrow> outcome option" where
  "e_failed error_buf l =
     (let msg = (if error_buf
                 then Some (case error l of Some e \<Rightarrow> e | None \<Rightarrow> Error Unknown_error None None)
                 else None);
          a = (if first_pass (state l) \<noteq> 0 then rootv l else alloc l)
      in case free_chain a (memory l) of
           None \<Rightarrow> None
         | Some None \<Rightarrow> Some Undefined_behaviour
         | Some (Some m1) \<Rightarrow>
             if first_pass (state l) = 0
             then (case value_free (settings (state l)) (rootv l) m1 of
                     None \<Rightarrow> None
                   | Some None \<Rightarrow> Some Undefined_behaviour
                   | Some (Some m2) \<Rightarrow> Some (Returned 0 msg m2))
             else Some (Returned 0 msg m1))"

text \<open>The two passes over the input that follows the byte-order mark.\<close>

definition parse_passes :: "settings \<Rightarrow> char list \<Rightarrow> bool \<Rightarrow> mem \<Rightarrow> outcome option" where
  "parse_passes s json error_buf m =
     (case scan json (start_pass 1 (initial_locals s m)) of
        None \<Rightarrow> None
      | Some (Break l1) \<Rightarrow>
          (case scan json (start_pass 0 (l1\<lparr>alloc := rootv l1\<rparr>)) of
             None \<Rightarrow> None
           | Some (Break l2) \<Rightarrow> Some (Returned (rootv l2) None (memory l2))
           | Some (Failed l2) \<Rightarrow> e_failed error_buf l2
           | Some _ \<Rightarrow> Some Undefined_behaviour)
      | Some (Failed l1) \<Rightarrow> e_failed error_buf l1
      | Some _ \<Rightarrow> Some Undefined_behaviour)"

definition parse :: "settings \<Rightarrow> char list \<Rightarrow> bool \<Rightarrow> mem \<Rightarrow> outcome option" where
  "parse s json error_buf m = parse_passes s (skip_bom json) error_buf m"

definition parse_default :: "char list \<Rightarrow> mem \<Rightarrow> outcome option" where
  "parse_default json m = parse zero_settings json False m"

definition empty_mem :: mem where
  "empty_mem = \<lparr>heap = (\<lambda>a. None), brk = 1, alloc_calls = [], free_calls = []\<rparr>"


subsection \<open>The tree as its reader sees it\<close>

text \<open>
  What a caller reads through the public \<^verbatim>\<open>json::value\<close>: the type, the scalar, \<^verbatim>\<open>length\<close>
  characters of a string, \<^verbatim>\<open>length\<close> children of an array, \<^verbatim>\<open>length\<close> entries of an object,
  each with \<^verbatim>\<open>name_length\<close> characters of name. The first argument bounds the depth read.
  Reading storage that was never written gives \<open>None\<close>.
\<close>

datatype jvalue =
    JObject "(string \<times> jvalue) list"
  | JArray "jvalue list"
  | JInteger int
  | JDouble real
  | JString string
  | JBoolean bool
  | JNull

definition read_chars :: "mem \<Rightarrow> addr \<times> nat \<Rightarrow> nat \<Rightarrow> string option" where
  "read_chars m s n =
     (case heap m (fst s) of
        Some (Chars cs) \<Rightarrow>
          if snd s + n \<le> length cs then those (take n (drop (snd s) cs)) else None
      | Some (Entries es ns) \<Rightarrow>
          if snd s + n \<le> length ns then those (take n (drop (snd s) ns)) else None
      | _ \<Rightarrow> None)"

fun tree_of :: "nat \<Rightarrow> mem \<Rightarrow> addr \<Rightarrow> jvalue option" where
  "tree_of 0 m p = None"
| "tree_of (Suc k) m p =
     (case get_node m p of
        None \<Rightarrow> None
      | Some v \<Rightarrow>
          (case vtype v of
             json_null \<Rightarrow> Some JNull
           | json_boolean \<Rightarrow> Some (JBoolean (u_boolean v))
           | json_integer \<Rightarrow> Some (JInteger (sint (u_integer v)))
           | json_double \<Rightarrow> Some (JDouble (u_dbl v))
           | json_string \<Rightarrow> map_option JString (read_chars m (u_values v, 0) (unat (u_length v)))
           | json_array \<Rightarrow>
               (if u_length v = 0 then Some (JArray [])
                else case heap m (u_values v) of
                       Some (Values vs) \<Rightarrow>
                         if unat (u_length v) \<le> length vs
                         then map_option JArray
                                (those (map (\<lambda>slot. case slot of None \<Rightarrow> None
                                                    | Some c \<Rightarrow> tree_of k m c)
                                          (take (unat (u_length v)) vs)))
                         else None
                     | _ \<Rightarrow> None)
           | json_object \<Rightarrow>
               (if u_length v = 0 then Some (JObject [])
                else case heap m (u_values v) of
                       Some (Entries es ns) \<Rightarrow>
                         if unat (u_length v) \<le> length es
                         then map_option JObject
                                (those (map (\<lambda>e. case (name e, name_length e, entry_value e) of
                                                   (Some s, Some n, Some c) \<Rightarrow>
                                                     (case (read_chars m s (unat n), tree_of k m c) of
                                                        (Some nm, Some t) \<Rightarrow> Some (nm, t)
                                                      | _ \<Rightarrow> None)
                                                 | _ \<Rightarrow> None)
                                          (take (unat (u_length v)) es)))
                         else None
                     | _ \<Rightarrow> None)))"

text \<open>
  A call of \<^verbatim>\<open>parse\<close> with an error buffer on a memory without allocations, as its caller
  sees it: the message, or the tree read from the result.
\<close>

definition parse_tree :: "settings \<Rightarrow> char list \<Rightarrow> (error + jvalue) option" where
  "parse_tree s json =
     (case parse s json True empty_mem of
        Some (Returned r e m) \<Rightarrow>
          if r = 0 then map_option Inl e else map_option Inr (tree_of (Suc (length json)) m r)
      | _ \<Rightarrow> None)"

text \<open>The addresses granted so far that have not been released.\<close>

definition live_blocks :: "mem \<Rightarrow> addr list" where
  "live_blocks m = filter (\<lambda>a. heap m a \<noteq> None) [1..<brk m]"

definition bom :: "char list" where
  "bom = [CHR 0xEF, CHR 0xBB, CHR 0xBF]"

text \<open>A string literal holding one escape, or two: the backslash is \<open>0x5C\<close>.\<close>

definition u_escape :: "string \<Rightarrow> char list" where
  "u_escape hex = CHR 0x5C # CHR ''u'' # hex"

subsection \<open>Texts of flat objects\<close>

text \<open>
  The text of an object whose members have names without quote, backslash or NUL and
  one-digit values: \<^verbatim>\<open>{"k1":d1,"k2":d2}\<close>. These are inputs for the theorems about members,
  not part of the program.
\<close>

definition digit_char :: "nat \<Rightarrow> char" where
  "digit_char d = char_of (48 + d)"

definition member_text :: "string \<times> nat \<Rightarrow> char list" where
  "member_text kd = [CHR 0x22] @ fst kd @ [CHR 0x22, CHR '':'', digit_char (snd kd)]"

fun members_text :: "(string \<times> nat) list \<Rightarrow> char list" where
  "members_text [] = [CHR ''}'']"
| "members_text [kd] = member_text kd @ [CHR ''}'']"
| "members_text (kd # kd' # kds) = member_text kd @ [CHR '',''] @ members_text (kd' # kds)"

definition object_text :: "(string \<times> nat) list \<Rightarrow> char list" where
  "object_text kds = CHR ''{'' # members_text kds"

definition plain_name :: "string \<Rightarrow> bool" where
  "plain_name k = (CHR 0x22 \<notin> set k \<and> CHR 0x5C \<notin> set k \<and> CHR 0x00 \<notin> set k)"

definition name_bytes :: "(string \<times> nat) list \<Rightarrow> nat" where
  "name_bytes kds = sum_list (map (\<lambda>kd. length (fst kd) + 1) kds)"

definition object_value :: "(string \<times> nat) list \<Rightarrow> jvalue" where
  "object_value kds = JObject (map (\<lambda>kd. (fst kd, JInteger (int (snd kd)))) kds)"

subsection \<open>States of the counting pass over a flat object\<close>

text \<open>
  The settings as \<^verbatim>\<open>parse\<close> completes them from \<open>roomy_settings\<close>, the shell of the root object and
  the shell of a member's value, all as the counting pass leaves them, and the state of the
  counting pass after the members \<open>kds\<close> of a flat object text with the default allocator on
  the empty memory: the shell of the root at address 1 counts the members and the bytes of
  their names, the shells of the values follow at addresses 2, 3, ... in a chain.
  \<open>counting\<close> describes the state between two members (\<open>nc\<close>: a comma is needed, \<open>z\<close>: the
  last number began with 0), \<open>counted\<close> the state at the end of the pass.
\<close>

definition init_settings :: settings where
  "init_settings = \<lparr>max_memory = 0, allow_comments = False, mem_alloc = Some default_alloc,
     mem_free = True, value_extra = 32\<rparr>"

definition root_node :: "nat \<Rightarrow> nat \<Rightarrow> reserved \<Rightarrow> json_value" where
  "root_node n cnt r = \<lparr>parent = 0, vtype = json_object, u_boolean = False, u_integer = 0,
     u_dbl = 0, u_length = of_nat n, u_values = cnt, reserved = r\<rparr>"

definition child_node :: "nat \<Rightarrow> addr \<Rightarrow> json_value" where
  "child_node d nxt = \<lparr>parent = 1, vtype = json_integer, u_boolean = False,
     u_integer = of_nat d, u_dbl = 0, u_length = 0, u_values = 0, reserved = Next_alloc nxt\<rparr>"

definition counting :: "bool \<Rightarrow> bool \<Rightarrow> (string \<times> nat) list \<Rightarrow> nat \<Rightarrow> locals \<Rightarrow> bool" where
  "counting nc z kds k l \<longleftrightarrow>
     ptr (state l) = int k \<and> first_pass (state l) = 1 \<and> settings (state l) = init_settings
     \<and> used_memory (state l) = 0 \<and> uint_max (state l) = - 9 \<and> ulong_max (state l) = - 9
     \<and> topv l = 1 \<and> rootv l = 1 \<and> alloc l = length kds + 1
     \<and> flags l = (if nc then {flag_need_comma} else {}) \<union> (if z then {flag_num_zero} else {})
     \<and> brk (memory l) = length kds + 2
     \<and> heap (memory l) 1 = Some (Node (root_node (length kds) (name_bytes kds)
           (Next_alloc (if kds = [] then 0 else 2))))
     \<and> (\<forall>a. 2 \<le> a \<and> a \<le> length kds + 1 \<longrightarrow>
           heap (memory l) a = Some (Node (child_node (snd (kds ! (a - 2)))
             (if a \<le> length kds then a + 1 else 0))))"

definition counted :: "(string \<times> nat) list \<Rightarrow> locals \<Rightarrow> bool" where
  "counted kds l \<longleftrightarrow>
     settings (state l) = init_settings
     \<and> used_memory (state l) = 0 \<and> uint_max (state l) = - 9 \<and> ulong_max (state l) = - 9
     \<and> rootv l = 1
     \<and> brk (memory l) = length kds + 2
     \<and> heap (memory l) 1 = Some (Node (root_node (length kds) (name_bytes kds)
           (Next_alloc (if kds = [] then 0 else 2))))
     \<and> (\<forall>a. 2 \<le> a \<and> a \<le> length kds + 1 \<longrightarrow>
           heap (memory l) a = Some (Node (child_node (snd (kds ! (a - 2)))
             (if a \<le> length kds then a + 1 else 0))))"

subsection \<open>States of the building pass over a flat object\<close>

text \<open>
  The payload of the root object while the building pass runs over a flat object text with
  the members \<open>kds\<close>: the bytes of the names written so far (\<open>written\<close>, each name followed
  by a NUL), the entries filled so far (\<open>entries\<close>), and the shell of the root with its fill
  cursor (\<open>built_root\<close>). The payload is the block granted after the shells, at address
  \<open>length kds + 2\<close>. \<open>building\<close> describes the state between two members when \<open>i\<close> members
  have been stored; \<open>put_names\<close> replaces the payload.
\<close>

definition name_chars :: "(string \<times> nat) list \<Rightarrow> char list" where
  "name_chars kds = concat (map (\<lambda>kd. fst kd @ [CHR 0x00]) kds)"

definition written :: "(string \<times> nat) list \<Rightarrow> nat \<Rightarrow> char option list" where
  "written kds q = map Some (take q (name_chars kds)) @ replicate (name_bytes kds - q) None"

definition built_entry :: "(string \<times> nat) list \<Rightarrow> nat \<Rightarrow> object_entry" where
  "built_entry kds j =
     \<lparr>name = Some (length kds + 2, name_bytes (take j kds)),
      name_length = Some (of_nat (length (fst (kds ! j)))),
      entry_value = Some (j + 2)\<rparr>"

definition entries :: "(string \<times> nat) list \<Rightarrow> nat \<Rightarrow> object_entry list" where
  "entries kds i = map (built_entry kds) [0..<i] @ replicate (length kds - i) empty_entry"

definition built_root :: "(string \<times> nat) list \<Rightarrow> nat \<Rightarrow> json_value" where
  "built_root kds i = \<lparr>parent = 0, vtype = json_object, u_boolean = False, u_integer = 0,
     u_dbl = 0, u_length = of_nat i, u_values = length kds + 2,
     reserved = Object_mem (length kds + 2) (name_bytes (take i kds))\<rparr>"

definition built :: "(string \<times> nat) list \<Rightarrow> nat \<Rightarrow> mem \<Rightarrow> bool" where
  "built kds i m \<longleftrightarrow>
     heap m 1 = Some (Node (built_root kds i))
     \<and> heap m (length kds + 2) = Some (Entries (entries kds i) (written kds (name_bytes (take i kds))))
     \<and> (\<forall>a. 2 \<le> a \<and> a \<le> length kds + 1 \<longrightarrow>
           heap m a = Some (Node (child_node (snd (kds ! (a - 2)))
             (if a \<le> length kds then a + 1 else 0))))"

definition building :: "bool \<Rightarrow> (string \<times> nat) list \<Rightarrow> nat \<Rightarrow> nat \<Rightarrow> locals \<Rightarrow> bool" where
  "building nc kds i k l \<longleftrightarrow>
     ptr (state l) = int k \<and> first_pass (state l) = 0 \<and> settings (state l) = init_settings
     \<and> uint_max (state l) = - 9
     \<and> topv l = 1 \<and> rootv l = 1 \<and> alloc l = (if i < length kds then i + 2 else 0)
     \<and> flags l = (if nc then {flag_need_comma} else {})
     \<and> built kds i (memory l)"

definition put_names :: "addr \<Rightarrow> object_entry list \<Rightarrow> char option list \<Rightarrow> mem \<Rightarrow> mem" where
  "put_names P es ns m = m\<lparr>heap := (heap m)(P \<mapsto> Entries es ns)\<rparr>"

lemmas parse_defs =
  parse_def parse_passes_def skip_bom_def has_bom_def start_pass_def initial_locals_def
  initial_state_def e_failed_def body_def after_def cur_byte_def deref_def
  string_block_def comment_block_def done_block_def value_block_def type_block_def
  tail_block_def next_block_def link_child_def number_block_def number_commit_def
  number_finish_def object_block_def start_value_def start_number_def keyword_def
  string_close_def commit_name_def escaped_char_def unicode_escape_def add_uchar_def
  utf8_bytes_def read_hex4_def string_add_bytes_def STRING_ADD_def write_char_def
  WHITESPACE_def is_whitespace_def advance_def failed_def e_unknown_value_def
  e_alloc_failure_def e_overflow_def LINE_AND_COL_def new_value_def new_value_first_def
  new_value_second_def payload_size_def json_alloc_def call_mem_alloc_def call_mem_free_def get_node_def
  set_node_def zero_value_def empty_entry_def hex_value_def isdigit_def is_number_char_def
  digit_of_def pow10_def to_double_def object_mem_of_def value_free_def free_step_def
  free_and_climb_def zero_settings_def roomy_settings_def sizeof_json_value_def empty_mem_def
  default_alloc_def
  scan.simps free_chain.simps free_walk.simps

lemmas tree_defs = parse_tree_def read_chars_def live_blocks_def

lemma tree_of_numeral: "tree_of (numeral n) m p = tree_of (Suc (pred_numeral n)) m p"
  by (simp add: numeral_eq_Suc)


lemma after_simps [simp]:
  "after (Fall l) f = f l" "after (Continue l) f = Continue l" "after (Break l) f = Break l"
  "after (Failed l) f = Failed l" "after Undefined f = Undefined"
  by (simp_all add: after_def)

lemma replicate_numeral: "replicate (numeral n) x = x # replicate (pred_numeral n) x"
  by (simp add: numeral_eq_Suc)

lemmas eval_simps = parse_defs parse_tree_def read_chars_def tree_of_numeral replicate_numeral
  char_of_def bit_iff_odd bom_def u_escape_def

section \<open>Numeric literals\<close>

lemma parse_0: \<open>parse_tree roomy_settings ''0'' = Some (Inr (JInteger 0))\<close>
  by (simp add: eval_simps)

lemma parse_minus_0: \<open>parse_tree roomy_settings ''-0'' = Some (Inr (JInteger 0))\<close>
  by (simp add: eval_simps)

lemma parse_0_dot_0: \<open>parse_tree roomy_settings ''0.0'' = Some (Inr (JDouble 0))\<close>
  by (simp add: eval_simps)

lemma parse_1e2: \<open>parse_tree roomy_settings ''1e2'' = Some (Inr (JDouble 100))\<close>
  by (simp add: eval_simps)

lemma parse_1E2: \<open>parse_tree roomy_settings ''1E2'' = Some (Inr (JDouble 100))\<close>
  by (simp add: eval_simps)

lemma parse_01:
  \<open>parse_tree roomy_settings ''01'' =
     Some (Inl (Error Unexpected_0_before (Some (1, 0)) (Some (CHR ''1''))))\<close>
  by (simp add: eval_simps)

lemma parse_minus_7: \<open>parse_tree roomy_settings ''-7'' = Some (Inr (JInteger (- 7)))\<close>
  by (simp add: eval_simps)

lemma parse_minus_2_dot_5:
  \<open>parse_tree roomy_settings ''-2.5'' = Some (Inr (JDouble (- (5 / 2))))\<close>
  by (simp add: eval_simps)

lemma parse_7: \<open>parse_tree roomy_settings ''7'' = Some (Inr (JInteger 7))\<close>
  by (simp add: eval_simps)


section \<open>Unicode escapes\<close>

lemma parse_u0041:
  \<open>parse_tree roomy_settings (''"'' @ u_escape ''0041'' @ ''"'') = Some (Inr (JString ''A''))\<close>
  by (simp add: eval_simps)

lemma parse_surrogate_pair:
  \<open>parse_tree roomy_settings (''"'' @ u_escape ''D83D'' @ u_escape ''DE00'' @ ''"'') =
     Some (Inr (JString [CHR 0xF0, CHR 0x9F, CHR 0x98, CHR 0x80]))\<close>
  by (simp add: eval_simps)

lemma parse_lone_high_surrogate:
  \<open>parse_tree roomy_settings (''"'' @ u_escape ''D800'' @ ''"'') =
     Some (Inl (Error Invalid_character_value (Some (1, 0)) (Some (CHR ''u''))))\<close>
  by (simp add: eval_simps)

lemma parse_high_then_no_low:
  \<open>parse_tree roomy_settings (''"'' @ u_escape ''D800'' @ u_escape ''0041'' @ ''"'') =
     Some (Inr (JString [CHR 0xF0, CHR 0x90, CHR 0x81, CHR 0x81]))\<close>
  by (simp add: eval_simps)

lemma parse_low_first:
  \<open>parse_tree roomy_settings (''"'' @ u_escape ''DC00'' @ u_escape ''DC00'' @ ''"'') =
     Some (Inr (JString [CHR 0xF0, CHR 0x90, CHR 0x80, CHR 0x80]))\<close>
  by (simp add: eval_simps)

text \<open>
  C4. A high surrogate followed by an escape outside the low-surrogate range, here
  \<^verbatim>\<open>\uD800A\<close>, and a low surrogate that comes first, here \<^verbatim>\<open>\uDC00\uDC00\<close>, are not
  refused: each is decoded to four bytes. (Here and below the settings are
  \<open>roomy_settings\<close>, under which the shells hold their values.)
\<close>

theorem unpaired_surrogates_accepted:
  \<open>parse_tree roomy_settings (''"'' @ u_escape ''D800'' @ u_escape ''0041'' @ ''"'') =
     Some (Inr (JString [CHR 0xF0, CHR 0x90, CHR 0x81, CHR 0x81]))
   \<and> parse_tree roomy_settings (''"'' @ u_escape ''DC00'' @ u_escape ''DC00'' @ ''"'') =
     Some (Inr (JString [CHR 0xF0, CHR 0x90, CHR 0x80, CHR 0x80]))\<close>
  using parse_high_then_no_low parse_low_first by blast

section \<open>Positions in messages\<close>

text \<open>
  C5. The input \<^verbatim>\<open>{"a":}\<close> is refused at its closing brace, the sixth byte of line 1, and
  the message carries line 1 and column 0 (settings \<open>roomy_settings\<close>).
\<close>

theorem missing_value_position:
  \<open>parse_tree roomy_settings ''{"a":}'' =
     Some (Inl (Error Unexpected_when_seeking_value (Some (1, 0)) (Some (CHR ''}''))))\<close>
  by (simp add: eval_simps)

section \<open>Release on failure\<close>

text \<open>
  C2. With shells of 40 bytes (\<^verbatim>\<open>value_extra\<close> = 32) and an allocate capability that fails at
  its fourth invocation, the building pass of \<^verbatim>\<open>["abc"]\<close> fails at the payload of the string;
  \<^verbatim>\<open>parse\<close> returns no tree, frees the payload of the array and its shell, and leaves the
  shell of the string, the second allocation, live.
\<close>

theorem failed_build_leaves_shell:
  \<open>case parse (roomy_settings\<lparr>mem_alloc := Some (\<lambda>k sz. k \<noteq> 3)\<rparr>) ''["abc"]'' True empty_mem of
     Some (Returned r e m) \<Rightarrow>
       r = 0 \<and> e = Some (Error Memory_allocation_failure None None)
       \<and> alloc_calls m = [(40, True), (40, True), (8, False), (4, False)]
       \<and> free_calls m = [3, 1] \<and> live_blocks m = [2]
   | _ \<Rightarrow> False\<close>
  apply (simp add: eval_simps)
  apply (simp add: live_blocks_def)
  done

section \<open>The allocation service\<close>

text \<open>
  A request that passes the overflow check with no ceiling configured is granted and the
  counter of allocated bytes stays 0.
\<close>

theorem json_alloc_counter_counterexample:
  "fst (json_alloc (initial_state zero_settings) empty_mem 8 True (Node zero_value)) \<noteq> 0
   \<and> used_memory (fst (snd (json_alloc (initial_state zero_settings) empty_mem 8 True
        (Node zero_value)))) = 0"
  by (simp add: eval_simps)

text \<open>
  C6, amended. A request that fails the overflow check, or the ceiling check when a ceiling
  is configured, returns null and the allocate capability is not invoked (the memory and
  its log of invocations are unchanged). A request that passes invokes the capability once
  with the size. The counter is advanced by the size of every request that passes the
  overflow check when a ceiling is configured, and is left as it is when none is.
\<close>

theorem json_alloc_checks:
  assumes "json_alloc st m sz zero init = (p, st1, m1)"
  shows "(ulong_max st - used_memory st < sz \<longrightarrow> p = 0 \<and> m1 = m \<and> st1 = st)
    \<and> (\<not> ulong_max st - used_memory st < sz \<and> max_memory (settings st) \<noteq> 0
         \<and> used_memory st + sz > max_memory (settings st) \<longrightarrow> p = 0 \<and> m1 = m)
    \<and> (\<not> ulong_max st - used_memory st < sz
         \<and> \<not> (max_memory (settings st) \<noteq> 0 \<and> used_memory st + sz > max_memory (settings st))
         \<longrightarrow> alloc_calls m1 = alloc_calls m @ [(unat sz, zero)])
    \<and> (\<not> ulong_max st - used_memory st < sz \<and> max_memory (settings st) \<noteq> 0
         \<longrightarrow> used_memory st1 = used_memory st + sz)
    \<and> (max_memory (settings st) = 0 \<longrightarrow> used_memory st1 = used_memory st)"
  using assms
  by (auto simp: json_alloc_def call_mem_alloc_def Let_def split: if_splits prod.splits)

theorem json_alloc_checks_witness:
  "json_alloc (initial_state (zero_settings\<lparr>max_memory := 16\<rparr>)) empty_mem 8 True (Node zero_value)
     = (1, (initial_state (zero_settings\<lparr>max_memory := 16\<rparr>))\<lparr>used_memory := 8\<rparr>,
        empty_mem\<lparr>heap := (heap empty_mem)(1 \<mapsto> Node zero_value), brk := 2,
                   alloc_calls := [(8, True)]\<rparr>)
   \<and> used_memory ((initial_state (zero_settings\<lparr>max_memory := 16\<rparr>))\<lparr>used_memory := 8\<rparr>)
       = used_memory (initial_state (zero_settings\<lparr>max_memory := 16\<rparr>)) + 8"
proof -
  have run: "json_alloc (initial_state (zero_settings\<lparr>max_memory := 16\<rparr>)) empty_mem 8 True
      (Node zero_value)
     = (1, (initial_state (zero_settings\<lparr>max_memory := 16\<rparr>))\<lparr>used_memory := 8\<rparr>,
        empty_mem\<lparr>heap := (heap empty_mem)(1 \<mapsto> Node zero_value), brk := 2,
                   alloc_calls := [(8, True)]\<rparr>)"
    by (simp add: eval_simps)
  from json_alloc_checks [OF run] show ?thesis
    using run by (simp add: eval_simps)
qed

section \<open>The byte-order mark\<close>

lemma parse_double_bom:
  \<open>parse_tree roomy_settings (bom @ bom @ ''1'') =
     Some (Inl (Error Unexpected_when_seeking_value (Some (1, 0)) (Some (CHR 0xEF))))\<close>
  by (simp add: eval_simps)

lemma parse_bom_1:
  \<open>parse_tree roomy_settings (drop 3 (bom @ bom @ ''1'')) = Some (Inr (JInteger 1))\<close>
  by (simp add: eval_simps)

text \<open>
  A buffer that begins with two byte-order marks is refused at the second mark, and the
  same buffer with its 3 leading bytes removed is parsed to the integer 1 (settings
  \<open>roomy_settings\<close>).
\<close>

theorem bom_removed_counterexample:
  \<open>has_bom (bom @ bom @ ''1'')
   \<and> parse_tree roomy_settings (bom @ bom @ ''1'') =
       Some (Inl (Error Unexpected_when_seeking_value (Some (1, 0)) (Some (CHR 0xEF))))
   \<and> parse_tree roomy_settings (drop 3 (bom @ bom @ ''1'')) = Some (Inr (JInteger 1))\<close>
  using parse_double_bom parse_bom_1 by (simp add: has_bom_def bom_def)

text \<open>
  C8, amended. For a buffer that begins with the byte-order mark and whose remainder does
  not begin with one again, \<^verbatim>\<open>parse\<close> gives what it gives for the buffer with its 3 leading
  bytes removed; for a buffer that begins with the mark the two passes run over the bytes
  after the first 3; for a buffer that does not, they run over the whole buffer.
\<close>

theorem parse_skips_one_bom:
  "(has_bom json \<and> \<not> has_bom (drop 3 json) \<longrightarrow>
      parse s json error_buf m = parse s (drop 3 json) error_buf m)
   \<and> (has_bom json \<longrightarrow> parse s json error_buf m = parse_passes s (drop 3 json) error_buf m)
   \<and> (\<not> has_bom json \<longrightarrow> parse s json error_buf m = parse_passes s json error_buf m)"
  by (simp add: parse_def skip_bom_def)

theorem parse_skips_one_bom_witness:
  \<open>has_bom (bom @ ''1'') \<and> \<not> has_bom (drop 3 (bom @ ''1''))
   \<and> parse roomy_settings (bom @ ''1'') True empty_mem
       = parse roomy_settings (drop 3 (bom @ ''1'')) True empty_mem
   \<and> parse roomy_settings (bom @ ''1'') True empty_mem
       = parse_passes roomy_settings (drop 3 (bom @ ''1'')) True empty_mem
   \<and> \<not> has_bom ''1''
   \<and> parse roomy_settings ''1'' True empty_mem = parse_passes roomy_settings ''1'' True empty_mem\<close>
proof -
  have a: "has_bom (bom @ ''1'')" and b: "\<not> has_bom (drop 3 (bom @ ''1''))"
    and c: "\<not> has_bom ''1''"
    by (simp_all add: has_bom_def bom_def)
  from parse_skips_one_bom [of "bom @ ''1''" roomy_settings True empty_mem]
    parse_skips_one_bom [of "''1''" roomy_settings True empty_mem] a b c
  show ?thesis by blast
qed

section \<open>Disposal of no tree\<close>

text \<open>
  C10. Both forms of \<^verbatim>\<open>value_free\<close> return at once on a null pointer: the memory, with
  its log of invocations of the free capability, is what it was.
\<close>

theorem value_free_null:
  "value_free s 0 m = Some (Some m) \<and> value_free_default 0 m = Some (Some m)"
  by (simp add: value_free_def value_free_default_def)

section \<open>Blank input\<close>

lemma whitespace_not_special:
  assumes "is_whitespace b"
  shows "b \<noteq> CHR 0x00" "b \<noteq> CHR ''/''" "b \<noteq> CHR '']''"
  using assms by (auto simp: is_whitespace_def)

lemma body_whitespace:
  assumes "cur_byte json (ptr (state l)) = Some b" "is_whitespace b"
    "flags l = {flag_seek_value}"
  shows "body json l = Continue (WHITESPACE b l)"
  using assms whitespace_not_special [OF assms(2)]
  by (simp add: body_def comment_block_def done_block_def value_block_def)

lemma body_end_seeking:
  assumes "cur_byte json (ptr (state l)) = Some (CHR 0x00)" "flags l = {flag_seek_value}"
  shows "body json l =
    failed (l\<lparr>flags := {}\<rparr>) Unexpected_when_seeking_value (Some (CHR 0x00))"
  using assms
  by (simp add: body_def comment_block_def done_block_def value_block_def
      start_value_def is_whitespace_def isdigit_def failed_def)

text \<open>
  From a state that seeks the root value, over input that is blank from the cursor on, the
  loop reaches the end of the input and fails there, without touching the memory.
\<close>

lemma scan_blank:
  assumes "ptr (state l) = int k" "k \<le> length json"
    "\<forall>i. k \<le> i \<and> i < length json \<longrightarrow> is_whitespace (json ! i)"
    "flags l = {flag_seek_value}"
  shows "\<exists>l'. scan json l = Some (Failed l') \<and> memory l' = memory l \<and> rootv l' = rootv l
    \<and> first_pass (state l') = first_pass (state l) \<and> error l' \<noteq> None"
  using assms
proof (induction "length json - k" arbitrary: k l)
  case 0
  then have "cur_byte json (ptr (state l)) = Some (CHR 0x00)"
    by (simp add: cur_byte_def)
  from body_end_seeking [OF this "0.prems"(4)] show ?case
    by (subst scan.simps) (simp add: failed_def)
next
  case (Suc n)
  then have lt: "k < length json" by simp
  with Suc.prems have ws: "is_whitespace (json ! k)" by simp
  have cb: "cur_byte json (ptr (state l)) = Some (json ! k)"
    using lt Suc.prems(1) by (simp add: cur_byte_def deref_def)
  define l1 where "l1 = advance 1 (WHITESPACE (json ! k) l)"
  have step: "scan json l = scan json l1"
    unfolding l1_def by (subst scan.simps) (simp add: body_whitespace [OF cb ws Suc.prems(4)])
  have same: "memory l1 = memory l" "rootv l1 = rootv l"
    "first_pass (state l1) = first_pass (state l)"
    by (simp_all add: l1_def advance_def WHITESPACE_def)
  have "\<exists>l'. scan json l1 = Some (Failed l') \<and> memory l' = memory l1 \<and> rootv l' = rootv l1
    \<and> first_pass (state l') = first_pass (state l1) \<and> error l' \<noteq> None"
  proof (rule Suc.hyps(1))
    show "n = length json - Suc k" using Suc.hyps(2) by simp
    show "ptr (state l1) = int (Suc k)"
      using Suc.prems(1) by (simp add: l1_def advance_def WHITESPACE_def)
    show "Suc k \<le> length json" using lt by simp
    show "\<forall>i. Suc k \<le> i \<and> i < length json \<longrightarrow> is_whitespace (json ! i)"
      using Suc.prems(3) by simp
    show "flags l1 = {flag_seek_value}"
      using Suc.prems(4) by (simp add: l1_def advance_def WHITESPACE_def)
  qed
  then show ?case
    by (simp only: step same)
qed

lemma blank_no_bom:
  assumes "\<forall>c\<in>set json. is_whitespace c"
  shows "skip_bom json = json"
proof -
  have "\<not> has_bom json"
  proof
    assume h: "has_bom json"
    then have "0 < length json" by (auto simp: has_bom_def)
    then have "json ! 0 \<in> set json" by (rule nth_mem)
    with assms have "is_whitespace (json ! 0)" by blast
    with h show False by (auto simp: has_bom_def is_whitespace_def)
  qed
  then show ?thesis by (simp add: skip_bom_def)
qed

lemma parse_blank:
  assumes "\<forall>c\<in>set json. is_whitespace c"
  shows "\<exists>msg. parse s json error_buf m = Some (Returned 0 msg m) \<and> (\<not> error_buf \<longrightarrow> msg = None)"
proof -
  let ?l = "start_pass 1 (initial_locals s m)"
  have "\<exists>l'. scan json ?l = Some (Failed l') \<and> memory l' = memory ?l \<and> rootv l' = rootv ?l
    \<and> first_pass (state l') = first_pass (state ?l) \<and> error l' \<noteq> None"
    by (rule scan_blank [where k = 0])
      (use assms in \<open>auto simp: start_pass_def initial_locals_def\<close>)
  then obtain l' where l': "scan json ?l = Some (Failed l')" "memory l' = m" "rootv l' = 0"
    "first_pass (state l') = 1"
    by (auto simp: start_pass_def initial_locals_def)
  show ?thesis
    using l' by (simp add: parse_def blank_no_bom [OF assms] parse_passes_def e_failed_def
        free_chain.simps)
qed

text \<open>
  For every settings value and memory, an input of whitespace only (the empty input
  included) makes both forms of \<^verbatim>\<open>parse\<close> return no tree, with the memory as it was; so a
  tree is returned only for an input with a byte that is not whitespace.
\<close>

lemma blank_input_fails:
  "((\<forall>c\<in>set json. is_whitespace c) \<longrightarrow>
      (\<exists>msg. parse s json error_buf m = Some (Returned 0 msg m))
      \<and> parse_default json m = Some (Returned 0 None m))
   \<and> (parse s json error_buf m = Some (Returned r msg1 m1) \<and> r \<noteq> 0 \<longrightarrow>
        (\<exists>c\<in>set json. \<not> is_whitespace c))"
proof (intro conjI impI)
  assume ws: "\<forall>c\<in>set json. is_whitespace c"
  from parse_blank [OF ws] show "\<exists>msg. parse s json error_buf m = Some (Returned 0 msg m)"
    by blast
  from parse_blank [OF ws, of zero_settings False m]
  show "parse_default json m = Some (Returned 0 None m)"
    by (auto simp: parse_default_def)
next
  assume a: "parse s json error_buf m = Some (Returned r msg1 m1) \<and> r \<noteq> 0"
  show "\<exists>c\<in>set json. \<not> is_whitespace c"
  proof (rule ccontr)
    assume "\<not> (\<exists>c\<in>set json. \<not> is_whitespace c)"
    then have "\<forall>c\<in>set json. is_whitespace c" by blast
    from parse_blank [OF this, of s error_buf m] a show False by auto
  qed
qed

lemma parse_1_2_garbage:
  \<open>parse_tree roomy_settings ''1 2'' =
     Some (Inl (Error Trailing_garbage (Some (1, 0)) (Some (CHR ''2''))))\<close>
  by (simp add: eval_simps)

section \<open>Inputs that are not one complete value\<close>

lemma parse_minus: \<open>parse_tree roomy_settings ''-'' = Some (Inr (JInteger 0))\<close>
  by (simp add: eval_simps)

lemma parse_array_trailing_comma:
  \<open>parse_tree roomy_settings ''[1,]'' = Some (Inr (JArray [JInteger 1]))\<close>
  by (simp add: eval_simps)

lemma parse_object_trailing_comma:
  \<open>parse_tree roomy_settings ''{"a":1,}'' = Some (Inr (JObject [(''a'', JInteger 1)]))\<close>
  by (simp add: eval_simps)

lemma parse_nul_after_root:
  \<open>parse_tree roomy_settings [CHR ''1'', CHR 0x00, CHR '']'', CHR ''x''] = Some (Inr (JInteger 1))\<close>
  by (simp add: eval_simps)

text \<open>
  C9. \<^verbatim>\<open>parse\<close> returns a tree for inputs that are not one complete value: the single byte
  \<^verbatim>\<open>-\<close>, a minus sign with no digit, gives the integer 0 (the value is committed at lines
  796-803 with no test that a digit was read); \<^verbatim>\<open>[1,]\<close> and \<^verbatim>\<open>{"a":1,}\<close>, with a comma and no
  value after it, give the array of 1 and the object of one member; and the four bytes
  \<^verbatim>\<open>1\<close>, NUL, \<^verbatim>\<open>]\<close>, \<^verbatim>\<open>x\<close> give the integer 1, the bytes after the NUL being never read.
\<close>

theorem incomplete_values_accepted:
  \<open>parse_tree roomy_settings ''-'' = Some (Inr (JInteger 0))
   \<and> parse_tree roomy_settings ''[1,]'' = Some (Inr (JArray [JInteger 1]))
   \<and> parse_tree roomy_settings ''{"a":1,}'' = Some (Inr (JObject [(''a'', JInteger 1)]))
   \<and> parse_tree roomy_settings [CHR ''1'', CHR 0x00, CHR '']'', CHR ''x''] = Some (Inr (JInteger 1))\<close>
  using parse_minus parse_array_trailing_comma parse_object_trailing_comma parse_nul_after_root
  by blast

section \<open>The counting pass over a flat object\<close>

text \<open>
  The scanning loop is executed symbolically over the text of a flat object: one lemma per
  piece of the text, each giving the state in which the loop goes on.
\<close>

lemma cur_byte_drop: "drop k json = c # cs \<Longrightarrow> cur_byte json (int k) = Some c"
proof -
  assume a: "drop k json = c # cs"
  then have lt: "k < length json" by (metis drop_all list.distinct(1) not_le)
  then have "json ! k = c" using a by (metis nth_via_drop)
  with lt show ?thesis by (simp add: cur_byte_def deref_def)
qed

lemma drop_next: "drop k json = c # cs \<Longrightarrow> drop (Suc k) json = cs"
  by (metis drop_Suc tl_drop list.sel(3))

lemma cur_byte_end: "drop k json = [] \<Longrightarrow> k \<le> length json \<Longrightarrow> cur_byte json (int k) = Some (CHR 0x00)"
  by (simp add: cur_byte_def)

lemma scan_first_start:
  assumes "json = CHR ''{'' # rest"
  shows "\<exists>l. scan json (start_pass 1 (initial_locals roomy_settings empty_mem)) = scan json l
     \<and> counting False False [] 1 l"
  apply (subst scan.simps)
  apply (simp add: assms body_def cur_byte_def deref_def start_pass_def initial_locals_def initial_state_def
     roomy_settings_def zero_settings_def sizeof_json_value_def comment_block_def done_block_def value_block_def is_whitespace_def
     start_value_def new_value_def new_value_first_def json_alloc_def call_mem_alloc_def
     default_alloc_def empty_mem_def set_node_def Let_def advance_def)
  apply (rule exI, rule conjI, rule refl)
  apply (auto simp: counting_def init_settings_def root_node_def zero_value_def name_bytes_def)
  done

lemma plain_name_Cons:
  "plain_name (c # cs) \<longleftrightarrow> c \<noteq> CHR 0x22 \<and> c \<noteq> CHR 0x5C \<and> c \<noteq> CHR 0x00 \<and> plain_name cs"
  by (auto simp: plain_name_def)

lemma scan_name_counting:
  assumes "ptr (state l) = int k" "drop k json = key @ CHR 0x22 # rest" "plain_name key"
    "first_pass (state l) = 1" "flag_string \<in> flags l" "flag_escaped \<notin> flags l"
    "uint_max (state l) = - 9" "unat (string_length l) + length key < 2 ^ 32 - 9"
  shows "scan json l = scan json (l\<lparr>string_length := string_length l + of_nat (length key),
           state := (state l)\<lparr>ptr := int (k + length key)\<rparr>\<rparr>)"
  using assms
proof (induction key arbitrary: l k)
  case Nil
  from Nil.prems(1) [symmetric] show ?case by simp
next
  case (Cons c cs)
  from Cons.prems(3) have c: "c \<noteq> CHR 0x22" "c \<noteq> CHR 0x5C" "c \<noteq> CHR 0x00" and cs: "plain_name cs"
    by (simp_all add: plain_name_Cons)
  have cb: "cur_byte json (ptr (state l)) = Some c"
    using Cons.prems(1,2) by (simp add: cur_byte_drop)
  have le: "\<not> - 9 < string_length l"
    using Cons.prems(8) by (simp add: word_less_nat_alt)
  define l1 where "l1 = advance 1 (l\<lparr>string_length := string_length l + 1\<rparr>)"
  have step: "scan json l = scan json l1"
    unfolding l1_def using cb c le Cons.prems(4,5,6,7)
    by (subst scan.simps) (simp add: body_def string_block_def STRING_ADD_def)
  have un: "unat (string_length l + 1) = unat (string_length l) + 1"
    using Cons.prems(8) by (simp add: unat_word_ariths)
  have "scan json l1 = scan json (l1\<lparr>string_length := string_length l1 + of_nat (length cs),
           state := (state l1)\<lparr>ptr := int (Suc k + length cs)\<rparr>\<rparr>)"
  proof (rule Cons.IH)
    show "ptr (state l1) = int (Suc k)" using Cons.prems(1) by (simp add: l1_def advance_def)
    show "drop (Suc k) json = cs @ CHR 0x22 # rest"
      using Cons.prems(2) by (simp add: drop_next)
    show "plain_name cs" by (rule cs)
    show "first_pass (state l1) = 1" using Cons.prems(4) by (simp add: l1_def advance_def)
    show "flag_string \<in> flags l1" using Cons.prems(5) by (simp add: l1_def advance_def)
    show "flag_escaped \<notin> flags l1" using Cons.prems(6) by (simp add: l1_def advance_def)
    show "uint_max (state l1) = - 9" using Cons.prems(7) by (simp add: l1_def advance_def)
    show "unat (string_length l1) + length cs < 2 ^ 32 - 9"
      using Cons.prems(8) un by (simp add: l1_def advance_def)
  qed
  then show ?case
    unfolding step by (simp add: l1_def advance_def add.assoc)
qed

lemma digit_char_of_char [simp]: "d < 10 \<Longrightarrow> (of_char (digit_char d) :: nat) = 48 + d"
  by (simp add: digit_char_def)

lemma digit_char_neq:
  assumes "d < 10" "(of_char c :: nat) < 48 \<or> 57 < (of_char c :: nat)"
  shows "digit_char d \<noteq> c"
proof
  assume "digit_char d = c"
  then have "(of_char c :: nat) = 48 + d" using assms(1) by (metis digit_char_of_char)
  with assms show False by auto
qed

lemma digit_char_simps [simp]:
  assumes "d < 10"
  shows "digit_char d \<noteq> CHR 0x22" "digit_char d \<noteq> CHR ''{''" "digit_char d \<noteq> CHR ''[''"
    "digit_char d \<noteq> CHR '']''" "digit_char d \<noteq> CHR ''t''" "digit_char d \<noteq> CHR ''f''"
    "digit_char d \<noteq> CHR ''n''" "digit_char d \<noteq> CHR ''-''" "digit_char d \<noteq> CHR 0x0A"
    "digit_char d \<noteq> CHR '' ''" "digit_char d \<noteq> CHR 0x09" "digit_char d \<noteq> CHR 0x0D"
    "digit_char d \<noteq> CHR 0x00" "digit_char d \<noteq> CHR ''/''" "digit_char d \<noteq> CHR '',''"
    "digit_char d \<noteq> CHR '':''"
    "isdigit (digit_char d)"
    "digit_of (digit_char d) = of_nat d"
  using assms
  by (auto simp: digit_char_neq isdigit_def digit_of_def intro!: digit_char_neq)

lemma digit_char_zero [simp]:
  assumes "d < 10"
  shows "(digit_char d = CHR ''0'') = (d = 0)"
proof
  assume "digit_char d = CHR ''0''"
  then have "(of_char (digit_char d) :: nat) = of_char (CHR ''0'')" by simp
  then show "d = 0" using assms by simp
next
  assume "d = 0"
  then show "digit_char d = CHR ''0''" by (simp add: digit_char_def char_of_def bit_iff_odd)
qed

lemmas body_defs = body_def comment_block_def done_block_def type_block_def get_node_def
  value_block_def start_value_def start_number_def object_block_def is_whitespace_def
  tail_block_def next_block_def string_block_def string_close_def number_block_def
  number_commit_def number_finish_def new_value_def new_value_first_def sizeof_json_value_def
  json_alloc_def call_mem_alloc_def default_alloc_def set_node_def advance_def Let_def
  init_settings_def root_node_def child_node_def zero_value_def object_mem_of_def

lemma member_counting:
  assumes c: "counting False z kds k l"
    and d: "drop k json = member_text (key, d) @ c # rest"
    and sep: "c = CHR '','' \<or> c = CHR ''}''"
    and dig: "d < 10" and pl: "plain_name key"
    and b1: "length key < 2 ^ 31" and b2: "name_bytes kds + length key + 1 < 2 ^ 64"
    and b3: "length kds + 1 < 2 ^ 31"
  shows "\<exists>l'. scan json l = scan json l'
     \<and> counting True (d = 0) (kds @ [(key, d)]) (k + length key + 4) l'"
proof -
  from c have f: "ptr (state l) = int k" "first_pass (state l) = 1"
    "settings (state l) = init_settings" "used_memory (state l) = 0"
    "uint_max (state l) = - 9" "ulong_max (state l) = - 9"
    "topv l = 1" "rootv l = 1" "alloc l = length kds + 1"
    "flags l = (if z then {flag_num_zero} else {})"
    "brk (memory l) = length kds + 2"
    "heap (memory l) 1 = Some (Node (root_node (length kds) (name_bytes kds)
           (Next_alloc (if kds = [] then 0 else 2))))"
    by (simp_all add: counting_def)
  from c have ch: "\<And>a. 2 \<le> a \<Longrightarrow> a \<le> length kds + 1 \<Longrightarrow>
           heap (memory l) a = Some (Node (child_node (snd (kds ! (a - 2)))
             (if a \<le> length kds then a + 1 else 0)))"
    by (simp add: counting_def)
  have d0: "drop k json = CHR 0x22 # key @ CHR 0x22 # CHR '':'' # digit_char d # c # rest"
    using d by (simp add: member_text_def)
  have d1: "drop (Suc k) json = key @ CHR 0x22 # CHR '':'' # digit_char d # c # rest"
    using d0 by (simp add: drop_next)
  have d2: "drop (Suc k + length key) json = CHR 0x22 # CHR '':'' # digit_char d # c # rest"
    using d1 by (metis append_eq_conv_conj drop_drop add.commute)
  have d3: "drop (Suc (Suc k + length key)) json = CHR '':'' # digit_char d # c # rest"
    using d2 by (simp add: drop_next)
  have d4: "drop (Suc (Suc (Suc k + length key))) json = digit_char d # c # rest"
    using d3 by (simp add: drop_next)
  have d5: "drop (Suc (Suc (Suc (Suc k + length key)))) json = c # rest"
    using d4 by (simp add: drop_next)
  define l1 where "l1 = advance 1 (l\<lparr>flags := insert flag_string (flags l),
     stringp := object_mem_of (Next_alloc (if kds = [] then 0 else 2)), string_length := 0\<rparr>)"
  have s1: "scan json l = scan json l1"
    unfolding l1_def
    apply (subst scan.simps)
    using f cur_byte_drop [OF d0]
    apply (simp add: body_defs)
    done
  define l2 where "l2 = l1\<lparr>string_length := string_length l1 + of_nat (length key),
           state := (state l1)\<lparr>ptr := int (Suc k + length key)\<rparr>\<rparr>"
  have s2: "scan json l1 = scan json l2"
    unfolding l2_def
    apply (rule scan_name_counting [OF _ d1 pl])
    using f b1 apply (simp_all add: l1_def advance_def)
    done
  have nl: "\<not> (- 9 :: 32 word) < word_of_nat (length key)"
    using b1 by (simp add: word_less_nat_alt unat_of_nat)
  have un: "unat (word_of_nat (length key) + 1 :: 32 word) = length key + 1"
    using b1 by (simp add: unat_word_ariths unat_of_nat)
  define p where "p = length kds + 2"
  define l3 where "l3 = advance 1 (l2\<lparr>memory := set_node 1 (root_node (length kds)
       (name_bytes kds + length key + 1) (Next_alloc (if kds = [] then 0 else 2))) (memory l2),
     flags := flags l \<union> {flag_seek_value, flag_need_colon}, stringp := (0, 0)\<rparr>)"
  have s3: "scan json l2 = scan json l3"
    unfolding l3_def
    apply (subst scan.simps)
    using f cur_byte_drop [OF d2] nl un b2
    apply (simp add: l2_def l1_def body_defs)
    apply (auto intro!: arg_cong [where f = "scan json"] locals.equality)
    done
  define l4 where "l4 = advance 1 (l3\<lparr>flags := insert flag_seek_value (flags l)\<rparr>)"
  have s4: "scan json l3 = scan json l4"
    unfolding l4_def
    apply (subst scan.simps)
    using f cur_byte_drop [OF d3]
    apply (simp add: l3_def l2_def l1_def body_defs)
    apply (auto intro!: arg_cong [where f = "scan json"] locals.equality)
    done
  have chl: "kds \<noteq> [] \<Longrightarrow> heap (memory l) (Suc (length kds)) =
      Some (Node (child_node (snd (kds ! (length kds - 1))) 0))"
    using ch [of "length kds + 1"] by (cases kds) simp_all
  define m2 where "m2 = set_node p (zero_value\<lparr>vtype := json_integer, parent := 1\<rparr>)
     ((memory l4)\<lparr>alloc_calls := alloc_calls (memory l4) @ [(40, True)],
        heap := (heap (memory l4))(p \<mapsto> Node zero_value), brk := p + 1\<rparr>)"
  define l5 where "l5 = l4\<lparr>alloc := p, topv := p,
     memory := set_node (length kds + 1)
        ((the (get_node m2 (length kds + 1)))\<lparr>reserved := Next_alloc p\<rparr>) m2,
     num_digits := 0, num_fraction := 0, num_e := 0, flags := {}\<rparr>"
  have s5: "scan json l4 = scan json l5"
    unfolding l5_def m2_def p_def
    apply (subst scan.simps)
    using f cur_byte_drop [OF d4] dig chl
    apply (simp add: l4_def l3_def l2_def l1_def body_defs)
    apply (auto intro!: arg_cong [where f = "scan json"] locals.equality)
    done
  define l6 where "l6 = advance 1 (l5\<lparr>num_digits := 1,
     flags := (if d = 0 then {flag_num_zero} else {}),
     memory := set_node p ((the (get_node (memory l5) p))\<lparr>u_integer := of_nat d\<rparr>) (memory l5)\<rparr>)"
  have s6: "scan json l5 = scan json l6"
    unfolding l6_def
    apply (subst scan.simps)
    using f cur_byte_drop [OF d4] dig chl
    apply (simp add: l5_def m2_def p_def l4_def l3_def l2_def l1_def body_defs)
    apply (auto intro!: arg_cong [where f = "scan json"] locals.equality)
    done
  have c_props: "\<not> isdigit c" "c \<noteq> CHR ''+''" "c \<noteq> CHR ''-''" "c \<noteq> CHR ''.''" "c \<noteq> CHR ''e''"
    "c \<noteq> CHR ''E''"
    using sep by (auto simp: isdigit_def)
  have nov: "\<not> (- 9 :: 32 word) < word_of_nat (length kds) + 1"
    using b3 by (simp add: word_less_nat_alt unat_word_ariths unat_of_nat)
  define m6 where "m6 = set_node p (the (get_node (memory l6) p)) (memory l6)"
  define l7 where "l7 = l6\<lparr>flags := insert flag_need_comma (flags l6), topv := 1,
     memory := set_node 1 ((the (get_node m6 1))\<lparr>u_length := of_nat (length kds) + 1\<rparr>) m6\<rparr>"
  have s7: "scan json l6 = scan json l7"
    unfolding l7_def m6_def
    apply (subst scan.simps)
    using f cur_byte_drop [OF d5] dig chl c_props nov
    apply (simp add: l6_def l5_def m2_def p_def l4_def l3_def l2_def l1_def body_defs)
    apply (auto intro!: arg_cong [where f = "scan json"] locals.equality)
    done
  have fin: "counting True (d = 0) (kds @ [(key, d)]) (k + length key + 4) l7"
    using f chl ch
    apply (simp add: counting_def l7_def m6_def l6_def l5_def m2_def p_def l4_def l3_def l2_def l1_def
        body_defs name_bytes_def)
    apply (auto simp: nth_append)
    done
  show ?thesis
    using s1 s2 s3 s4 s5 s6 s7 fin by auto
qed

lemma comma_counting:
  assumes c: "counting True z kds k l" and d: "drop k json = CHR '','' # rest"
  shows "\<exists>l'. scan json l = scan json l' \<and> counting False z kds (Suc k) l'"
proof -
  from c have f: "ptr (state l) = int k" "first_pass (state l) = 1"
    "settings (state l) = init_settings" "topv l = 1"
    "flags l = {flag_need_comma} \<union> (if z then {flag_num_zero} else {})"
    "heap (memory l) 1 = Some (Node (root_node (length kds) (name_bytes kds)
           (Next_alloc (if kds = [] then 0 else 2))))"
    by (simp_all add: counting_def)
  define l1 where "l1 = advance 1 (l\<lparr>flags := flags l - {flag_need_comma}\<rparr>)"
  have s1: "scan json l = scan json l1"
    unfolding l1_def
    apply (subst scan.simps)
    using f cur_byte_drop [OF d]
    apply (simp add: body_defs)
    done
  have "counting False z kds (Suc k) l1"
    using c by (auto simp: counting_def l1_def advance_def)
  with s1 show ?thesis by blast
qed

lemma close_counting:
  assumes c: "counting nc z kds k l" and d: "drop k json = [CHR ''}'']"
  shows "\<exists>l'. scan json l = Some (Break l') \<and> counted kds l'"
proof -
  from c have f: "ptr (state l) = int k" "first_pass (state l) = 1"
    "settings (state l) = init_settings" "topv l = 1"
    "flags l = (if nc then {flag_need_comma} else {}) \<union> (if z then {flag_num_zero} else {})"
    "heap (memory l) 1 = Some (Node (root_node (length kds) (name_bytes kds)
           (Next_alloc (if kds = [] then 0 else 2))))"
    by (simp_all add: counting_def)
  have len: "length json = Suc k"
  proof -
    have "length (drop k json) = 1" using d by simp
    then show ?thesis by simp
  qed
  define l1 where "l1 = advance 1 (l\<lparr>flags := insert flag_done (insert flag_need_comma (flags l))\<rparr>)"
  have s1: "scan json l = scan json l1"
    unfolding l1_def
    apply (subst scan.simps)
    using f cur_byte_drop [OF d]
    apply (simp add: body_defs)
    apply (auto intro!: arg_cong [where f = "scan json"] locals.equality)
    done
  have s2: "scan json l1 = Some (Break l1)"
    apply (subst scan.simps)
    using f len
    apply (simp add: l1_def body_defs cur_byte_def)
    done
  have "counted kds l1"
    using c by (auto simp: counting_def counted_def l1_def advance_def)
  with s1 s2 show ?thesis by simp
qed


lemma name_bytes_append: "name_bytes (xs @ ys) = name_bytes xs + name_bytes ys"
  by (simp add: name_bytes_def)

lemma name_bytes_single: "name_bytes [kd] = length (fst kd) + 1"
  by (simp add: name_bytes_def)

lemma name_bytes_Cons: "name_bytes (kd # kds) = length (fst kd) + 1 + name_bytes kds"
  by (simp add: name_bytes_def)

lemma length_member_text: "length (member_text kd) = length (fst kd) + 4"
  by (simp add: member_text_def)

lemma drop_member:
  assumes "drop k json = member_text kd @ rest"
  shows "drop (k + length (fst kd) + 4) json = rest"
proof -
  have "drop (k + length (fst kd) + 4) json = drop (length (member_text kd)) (drop k json)"
    by (simp add: length_member_text add.commute add.left_commute)
  then show ?thesis using assms by simp
qed

lemma members_counting:
  assumes "counting False z pre k l" and "drop k json = members_text kds"
    and "\<forall>kd\<in>set kds. snd kd < 10 \<and> plain_name (fst kd)"
    and "length (pre @ kds) < 2 ^ 31" and "name_bytes (pre @ kds) < 2 ^ 31"
  shows "\<exists>l'. scan json l = Some (Break l') \<and> counted (pre @ kds) l'"
  using assms
proof (induction kds arbitrary: z pre k l rule: members_text.induct)
  case 1
  then show ?case using close_counting [of False z pre k l json] by simp
next
  case (2 kd)
  obtain key d where kd: "kd = (key, d)" by (cases kd)
  have dr: "drop k json = member_text (key, d) @ CHR ''}'' # []"
    using 2(2) kd by simp
  have "\<exists>l'. scan json l = scan json l' \<and>
      counting True (d = 0) (pre @ [(key, d)]) (k + length key + 4) l'"
    using 2 kd
    by (intro member_counting [OF 2(1) dr])
      (simp_all add: name_bytes_append name_bytes_single)
  then obtain l1 where l1: "scan json l = scan json l1"
    "counting True (d = 0) (pre @ [(key, d)]) (k + length key + 4) l1" by blast
  have "drop (k + length key + 4) json = [CHR ''}'']"
    using drop_member [of k json "(key, d)" "[CHR ''}'']"] dr by simp
  from close_counting [OF l1(2) this] l1(1) kd show ?case by simp
next
  case (3 kd kd' kds)
  obtain key d where kd: "kd = (key, d)" by (cases kd)
  have dr: "drop k json = member_text (key, d) @ CHR '','' # members_text (kd' # kds)"
    using 3(3) kd by simp
  have "\<exists>l'. scan json l = scan json l' \<and>
      counting True (d = 0) (pre @ [(key, d)]) (k + length key + 4) l'"
    using 3(2-) kd
    by (intro member_counting [OF 3(2) dr])
      (simp_all add: name_bytes_append name_bytes_Cons)
  then obtain l1 where l1: "scan json l = scan json l1"
    "counting True (d = 0) (pre @ [(key, d)]) (k + length key + 4) l1" by blast
  have d1: "drop (k + length key + 4) json = CHR '','' # members_text (kd' # kds)"
    using drop_member [of k json "(key, d)"] dr by simp
  from comma_counting [OF l1(2) d1] obtain l2 where l2: "scan json l1 = scan json l2"
    "counting False (d = 0) (pre @ [(key, d)]) (Suc (k + length key + 4)) l2" by blast
  have d2: "drop (Suc (k + length key + 4)) json = members_text (kd' # kds)"
    using drop_next [OF d1] .
  have "\<exists>l'. scan json l2 = Some (Break l') \<and> counted ((pre @ [(key, d)]) @ kd' # kds) l'"
    using 3(4-) kd
    by (intro "3.IH" [OF l2(2) d2]) (simp_all add: name_bytes_append name_bytes_Cons)
  then show ?case using l1(1) l2(1) kd by simp
qed

lemma no_bom_object_text [simp]: "skip_bom (object_text kds) = object_text kds"
  by (simp add: skip_bom_def has_bom_def object_text_def)

lemma first_pass_object_text:
  assumes "\<forall>kd\<in>set kds. snd kd < 10 \<and> plain_name (fst kd)"
    and "length kds < 2 ^ 31" and "name_bytes kds < 2 ^ 31"
  shows "\<exists>l'. scan (object_text kds) (start_pass 1 (initial_locals roomy_settings empty_mem))
            = Some (Break l') \<and> counted kds l'"
proof -
  from scan_first_start [of "object_text kds" "members_text kds"]
  obtain l where l: "scan (object_text kds) (start_pass 1 (initial_locals roomy_settings empty_mem))
      = scan (object_text kds) l" "counting False False [] 1 l"
    by (auto simp: object_text_def)
  have "drop 1 (object_text kds) = members_text kds" by (simp add: object_text_def)
  from members_counting [OF l(2) this, of ] assms l(1) show ?thesis by simp
qed


section \<open>The payload of an object with many members\<close>

lemma second_value_overrun:
  assumes c: "counted kds l" and n: "length kds = 178956971" and nb: "name_bytes kds = 178956971"
  shows "map_option (\<lambda>v. (vtype v, u_length v, u_values v)) (get_node (memory l) (rootv l))
            = Some (json_object, 178956971, 178956971)"
    and "map_option payload_size (get_node (memory l) (rootv l)) = Some 178956979"
    and "new_value_second (start_pass 0 (l\<lparr>alloc := rootv l\<rparr>)) = None"
proof -
  from c n nb have f: "settings (state l) = init_settings" "used_memory (state l) = 0"
    "ulong_max (state l) = - 9" "rootv l = 1"
    "heap (memory l) 1 = Some (Node (root_node 178956971 178956971 (Next_alloc 2)))"
    "brk (memory l) = 178956973"
    by (auto simp: counted_def)
  show "map_option (\<lambda>v. (vtype v, u_length v, u_values v)) (get_node (memory l) (rootv l))
            = Some (json_object, 178956971, 178956971)"
    using f by (simp add: get_node_def root_node_def)
  show "map_option payload_size (get_node (memory l) (rootv l)) = Some 178956979"
    using f by (simp add: get_node_def root_node_def payload_size_def)
  show "new_value_second (start_pass 0 (l\<lparr>alloc := rootv l\<rparr>)) = None"
    using f
    by (simp add: start_pass_def new_value_second_def payload_size_def get_node_def root_node_def
        json_alloc_def call_mem_alloc_def default_alloc_def init_settings_def Let_def)
qed

lemma second_pass_overrun:
  assumes c: "counted kds l" and n: "length kds = 178956971" and nb: "name_bytes kds = 178956971"
  shows "scan (object_text kds) (start_pass 0 (l\<lparr>alloc := rootv l\<rparr>)) = Some Undefined"
proof -
  from c n nb have f: "settings (state l) = init_settings" "used_memory (state l) = 0"
    "ulong_max (state l) = - 9" "rootv l = 1"
    "heap (memory l) 1 = Some (Node (root_node 178956971 178956971 (Next_alloc 2)))"
    "brk (memory l) = 178956973"
    by (auto simp: counted_def)
  show ?thesis
    apply (subst scan.simps)
    using f
    apply (simp add: start_pass_def object_text_def cur_byte_def deref_def new_value_second_def
        payload_size_def body_defs)
    done
qed

text \<open>
  Claim C1. With settings under which the shells hold their values, the object text with
  178956971 members \<^verbatim>\<open>"":0\<close> is accepted by the counting pass, which counts 178956971 members
  and 178956971 bytes of names in the shell of the root. The building pass computes the
  size of the entries, 24 bytes times the number of members, in an \<^verbatim>\<open>int\<close> (line 142, line
  168): the product 4294967304 is truncated to 8, and the payload requested for the
  178956971 entries and the names is of 178956979 bytes. The entries written into it by
  the building pass overrun it: the call of \<^verbatim>\<open>parse\<close> is undefined.
\<close>

theorem object_payload_overrun:
  "\<exists>l1. scan (object_text (replicate 178956971 ([], 0)))
            (start_pass 1 (initial_locals roomy_settings empty_mem)) = Some (Break l1)
     \<and> map_option (\<lambda>v. (vtype v, u_length v, u_values v)) (get_node (memory l1) (rootv l1))
          = Some (json_object, 178956971, 178956971)
     \<and> map_option payload_size (get_node (memory l1) (rootv l1)) = Some 178956979
     \<and> new_value_second (start_pass 0 (l1\<lparr>alloc := rootv l1\<rparr>)) = None
     \<and> parse roomy_settings (object_text (replicate 178956971 ([], 0))) True empty_mem
          = Some Undefined_behaviour"
proof -
  let ?kds = "replicate 178956971 ([], 0::nat)"
  have "\<exists>l'. scan (object_text ?kds) (start_pass 1 (initial_locals roomy_settings empty_mem))
            = Some (Break l') \<and> counted ?kds l'"
    by (rule first_pass_object_text) (simp_all add: plain_name_def name_bytes_def sum_list_replicate)
  then obtain l' where l': "scan (object_text ?kds) (start_pass 1 (initial_locals roomy_settings empty_mem))
            = Some (Break l')" "counted ?kds l'" by blast
  have n: "length ?kds = 178956971" "name_bytes ?kds = 178956971"
    by (simp_all add: name_bytes_def sum_list_replicate)
  note ov = second_value_overrun [OF l'(2) n]
  have "scan (object_text ?kds) (start_pass 0 (l'\<lparr>alloc := rootv l'\<rparr>)) = Some Undefined"
    by (rule second_pass_overrun [OF l'(2) n])
  with l'(1) have "parse roomy_settings (object_text ?kds) True empty_mem = Some Undefined_behaviour"
    by (simp add: parse_def parse_passes_def)
  with l'(1) ov show ?thesis by blast
qed

section \<open>The building pass over a flat object\<close>

text \<open>
  The building pass is executed symbolically over the same texts, and the tree is read from
  the memory it leaves.
\<close>

lemma length_name_chars [simp]: "length (name_chars kds) = name_bytes kds"
  by (induction kds) (simp_all add: name_chars_def name_bytes_def)

lemma name_chars_append: "name_chars (xs @ ys) = name_chars xs @ name_chars ys"
  by (simp add: name_chars_def)

lemma name_chars_Cons: "name_chars (kd # kds) = fst kd @ CHR 0x00 # name_chars kds"
  by (simp add: name_chars_def)

lemma drop_name_chars:
  assumes "i < length kds"
  shows "drop (name_bytes (take i kds)) (name_chars kds)
           = fst (kds ! i) @ CHR 0x00 # name_chars (drop (Suc i) kds)"
proof -
  have "kds = take i kds @ kds ! i # drop (Suc i) kds"
    using assms by (simp add: id_take_nth_drop)
  then have "name_chars kds = name_chars (take i kds) @ fst (kds ! i) @ CHR 0x00 # name_chars (drop (Suc i) kds)"
    by (metis name_chars_append name_chars_Cons)
  then show ?thesis by (simp del: length_name_chars add: length_name_chars [symmetric])
qed

lemma name_bytes_take_Suc:
  "i < length kds \<Longrightarrow> name_bytes (take (Suc i) kds) = name_bytes (take i kds) + length (fst (kds ! i)) + 1"
  by (simp add: take_Suc_conv_app_nth name_bytes_append name_bytes_single)

lemma name_bytes_take_le: "name_bytes (take i kds) \<le> name_bytes kds"
proof -
  have "name_bytes kds = name_bytes (take i kds) + name_bytes (drop i kds)"
    by (metis append_take_drop_id name_bytes_append)
  then show ?thesis by simp
qed

lemma length_written [simp]: "q \<le> name_bytes kds \<Longrightarrow> length (written kds q) = name_bytes kds"
  by (simp add: written_def)

lemma written_update:
  assumes "q < name_bytes kds"
  shows "(written kds q)[q := Some (name_chars kds ! q)] = written kds (Suc q)"
proof -
  have l: "length (take q (name_chars kds)) = q" using assms by simp
  have r: "replicate (name_bytes kds - q) (None :: char option)
      = None # replicate (name_bytes kds - Suc q) None"
    using assms by (metis Suc_diff_Suc replicate_Suc)
  have "(written kds q)[q := Some (name_chars kds ! q)]
      = map Some (take q (name_chars kds)) @ Some (name_chars kds ! q) # replicate (name_bytes kds - Suc q) None"
    unfolding written_def r using l by (simp add: list_update_append)
  also have "\<dots> = written kds (Suc q)"
    using assms by (simp add: written_def take_Suc_conv_app_nth)
  finally show ?thesis .
qed

lemma written_0: "written kds 0 = replicate (name_bytes kds) None"
  by (simp add: written_def)

lemma entries_0: "entries kds 0 = replicate (length kds) empty_entry"
  by (simp add: entries_def)

lemma length_entries [simp]: "i \<le> length kds \<Longrightarrow> length (entries kds i) = length kds"
  by (simp add: entries_def)

lemma entries_nth_empty: "i < length kds \<Longrightarrow> entries kds i ! i = empty_entry"
  by (simp add: entries_def nth_append)

lemma entries_update:
  assumes "i < length kds"
  shows "(entries kds i)[i := built_entry kds i] = entries kds (Suc i)"
proof -
  have r: "replicate (length kds - i) empty_entry
      = empty_entry # replicate (length kds - Suc i) empty_entry"
    using assms by (metis Suc_diff_Suc replicate_Suc)
  show ?thesis
    unfolding entries_def r by (simp add: list_update_append)
qed

lemma unat_len32: "n < 2 ^ 31 \<Longrightarrow> unat (of_nat n :: 32 word) = n"
  by (simp add: unat_of_nat)

lemma unat_len64: "n < 2 ^ 32 \<Longrightarrow> unat (of_nat n :: 64 word) = n"
  by (simp add: unat_of_nat)

lemma scast_small:
  assumes "n < 2 ^ 31"
  shows "(scast (word_of_nat n :: 32 word) :: 64 word) = word_of_nat n"
proof -
  have "signed_take_bit 31 (int n) = int n"
    using assms by (intro signed_take_bit_int_eq_self) simp_all
  then show ?thesis by (simp add: signed_of_nat)
qed

lemma of_nat_neq0: "0 < n \<Longrightarrow> n < 2 ^ 31 \<Longrightarrow> (of_nat n :: 32 word) \<noteq> 0"
  by (metis unat_len32 unat_0 less_numeral_extra(3))

lemma not_big: "n < 2 ^ 32 \<Longrightarrow> \<not> - 9 < (of_nat n :: 64 word)"
  by (simp add: word_less_nat_alt unat_of_nat)

lemma scan_second_start:
  assumes c: "counted kds l1" and ne: "kds \<noteq> []"
    and b: "24 * length kds + name_bytes kds < 2 ^ 31"
  shows "\<exists>l. scan (CHR ''{'' # rest) (start_pass 0 (l1\<lparr>alloc := rootv l1\<rparr>))
            = scan (CHR ''{'' # rest) l \<and> building False kds 0 1 l"
proof -
  let ?n = "length kds"
  from c ne have f: "settings (state l1) = init_settings" "used_memory (state l1) = 0"
    "ulong_max (state l1) = - 9" "uint_max (state l1) = - 9" "rootv l1 = 1"
    "heap (memory l1) 1 = Some (Node (root_node ?n (name_bytes kds) (Next_alloc 2)))"
    "brk (memory l1) = ?n + 2"
    by (auto simp: counted_def)
  from c have ch: "\<forall>a. 2 \<le> a \<and> a \<le> ?n + 1 \<longrightarrow>
           heap (memory l1) a = Some (Node (child_node (snd (kds ! (a - 2)))
             (if a \<le> ?n then a + 1 else 0)))"
    by (simp add: counted_def)
  have n0: "0 < ?n" using ne by simp
  have nl: "?n < 2 ^ 31" "24 * ?n < 2 ^ 31" "24 * ?n + name_bytes kds < 2 ^ 32" using b by simp_all
  have w: "unat (of_nat ?n :: 32 word) = ?n" "(of_nat ?n :: 32 word) \<noteq> 0"
    "(scast (word_of_nat (24 * ?n) :: 32 word) :: 64 word) = word_of_nat (24 * ?n)"
    using unat_len32 [OF nl(1)] of_nat_neq0 [OF n0 nl(1)] scast_small [OF nl(2)] by simp_all
  have sz: "(word_of_nat (24 * ?n) :: 64 word) + word_of_nat (name_bytes kds)
      = word_of_nat (24 * ?n + name_bytes kds)" by simp
  have w2: "unat (word_of_nat (24 * ?n + name_bytes kds) :: 64 word) = 24 * ?n + name_bytes kds"
    "\<not> - 9 < (word_of_nat (24 * ?n + name_bytes kds) :: 64 word)"
    using unat_len64 [OF nl(3)] not_big [OF nl(3)] by simp_all
  define m where "m = (memory l1)\<lparr>alloc_calls := alloc_calls (memory l1) @ [(24 * ?n + name_bytes kds, False)],
      heap := (heap (memory l1))(?n + 2 \<mapsto> Entries (entries kds 0) (written kds 0),
                1 \<mapsto> Node (built_root kds 0)),
      brk := ?n + 3\<rparr>"
  define l where "l = advance 1 ((start_pass 0 (l1\<lparr>alloc := rootv l1\<rparr>))
      \<lparr>topv := 1, alloc := 2, rootv := 1, flags := {}, memory := m\<rparr>)"
  have s: "scan (CHR ''{'' # rest) (start_pass 0 (l1\<lparr>alloc := rootv l1\<rparr>)) = scan (CHR ''{'' # rest) l"
    apply (subst scan.simps)
    using f w
    apply (simp add: start_pass_def cur_byte_def deref_def new_value_second_def payload_size_def
        body_defs del: of_nat_mult of_nat_add)
    apply (simp only: sz w2)
    apply (simp add: l_def m_def start_pass_def advance_def entries_0 written_0 built_root_def
        root_node_def name_bytes_def)
    apply (auto intro!: arg_cong [where f = "scan (CHR ''{'' # rest)"] locals.equality)
    done
  have "building False kds 0 1 l"
    using f ch n0
    by (auto simp: building_def built_def l_def m_def start_pass_def advance_def name_bytes_def)
  with s show ?thesis by blast
qed

lemma put_names_twice [simp]: "put_names P es ns (put_names P es' ns' m) = put_names P es ns m"
  by (simp add: put_names_def)

lemma put_names_same: "heap m P = Some (Entries es ns) \<Longrightarrow> put_names P es ns m = m"
  by (simp add: put_names_def fun_upd_idem)

lemma heap_put_names [simp]: "heap (put_names P es ns m) a = (if a = P then Some (Entries es ns) else heap m a)"
  by (simp add: put_names_def)

lemma scan_name_building:
  assumes "ptr (state l) = int k" "drop k json = key @ CHR 0x22 # rest" "plain_name key"
    "first_pass (state l) = 0" "flag_string \<in> flags l" "flag_escaped \<notin> flags l"
    "uint_max (state l) = - 9" "stringp l = (P, off)"
    "unat (string_length l) + length key < 2 ^ 31"
    "heap (memory l) P = Some (Entries es (written kds (off + unat (string_length l))))"
    "drop (off + unat (string_length l)) (name_chars kds) = key @ zs"
  shows "scan json l = scan json (l\<lparr>memory := put_names P es
              (written kds (off + unat (string_length l) + length key)) (memory l),
           string_length := string_length l + of_nat (length key),
           state := (state l)\<lparr>ptr := int (k + length key)\<rparr>\<rparr>)"
  using assms
proof (induction key arbitrary: l k)
  case Nil
  from Nil.prems(1) [symmetric] Nil.prems(10) show ?case by (simp add: put_names_same)
next
  case (Cons c cs)
  let ?q = "off + unat (string_length l)"
  from Cons.prems(3) have c: "c \<noteq> CHR 0x22" "c \<noteq> CHR 0x5C" "c \<noteq> CHR 0x00" and cs: "plain_name cs"
    by (simp_all add: plain_name_Cons)
  have cb: "cur_byte json (ptr (state l)) = Some c"
    using Cons.prems(1,2) by (simp add: cur_byte_drop)
  have le: "\<not> - 9 < string_length l"
    using Cons.prems(9) by (simp add: word_less_nat_alt)
  have q: "?q < name_bytes kds"
  proof -
    have "length (drop ?q (name_chars kds)) > 0" using Cons.prems(11) by simp
    then show ?thesis by simp
  qed
  have nq: "name_chars kds ! ?q = c"
    using Cons.prems(11) by (metis append_Cons nth_via_drop)
  have wu: "(written kds ?q)[?q := Some c] = written kds (Suc ?q)"
    using written_update [OF q] nq by simp
  define l1 where "l1 = advance 1 (l\<lparr>memory := put_names P es (written kds (Suc ?q)) (memory l),
       string_length := string_length l + 1\<rparr>)"
  have step: "scan json l = scan json l1"
    unfolding l1_def using cb c le q wu Cons.prems(4,5,6,7,8,10)
    by (subst scan.simps)
      (simp add: body_def string_block_def STRING_ADD_def write_char_def put_names_def)
  have un: "unat (string_length l + 1) = unat (string_length l) + 1"
    using Cons.prems(9) by (simp add: unat_word_ariths)
  have "scan json l1 = scan json (l1\<lparr>memory := put_names P es
              (written kds (off + unat (string_length l1) + length cs)) (memory l1),
           string_length := string_length l1 + of_nat (length cs),
           state := (state l1)\<lparr>ptr := int (Suc k + length cs)\<rparr>\<rparr>)"
  proof (rule Cons.IH)
    show "ptr (state l1) = int (Suc k)" using Cons.prems(1) by (simp add: l1_def advance_def)
    show "drop (Suc k) json = cs @ CHR 0x22 # rest"
      using Cons.prems(2) by (simp add: drop_next)
    show "plain_name cs" by (rule cs)
    show "first_pass (state l1) = 0" using Cons.prems(4) by (simp add: l1_def advance_def)
    show "flag_string \<in> flags l1" using Cons.prems(5) by (simp add: l1_def advance_def)
    show "flag_escaped \<notin> flags l1" using Cons.prems(6) by (simp add: l1_def advance_def)
    show "uint_max (state l1) = - 9" using Cons.prems(7) by (simp add: l1_def advance_def)
    show "stringp l1 = (P, off)" using Cons.prems(8) by (simp add: l1_def advance_def)
    show "unat (string_length l1) + length cs < 2 ^ 31"
      using Cons.prems(9) un by (simp add: l1_def advance_def)
    show "heap (memory l1) P = Some (Entries es (written kds (off + unat (string_length l1))))"
      using un by (simp add: l1_def advance_def)
    show "drop (off + unat (string_length l1)) (name_chars kds) = cs @ zs"
      using Cons.prems(11) un by (simp add: l1_def advance_def drop_next)
  qed
  then show ?case
    unfolding step using un by (simp add: l1_def advance_def add.assoc)
qed

lemmas body2_defs = body_defs new_value_second_def payload_size_def link_child_def commit_name_def write_char_def
  is_number_char_def put_names_def empty_entry_def

lemma member_building:
  assumes b: "building False kds i k l"
    and d: "drop k json = member_text (kds ! i) @ c # rest"
    and sep: "c = CHR '','' \<or> c = CHR ''}''"
    and i: "i < length kds"
    and ok: "\<forall>kd\<in>set kds. snd kd < 10 \<and> plain_name (fst kd)"
    and bd: "24 * length kds + name_bytes kds < 2 ^ 31"
  shows "\<exists>l'. scan json l = scan json l'
     \<and> building True kds (Suc i) (k + length (fst (kds ! i)) + 4) l'"
proof -
  define key where "key = fst (kds ! i)"
  define dg where "dg = snd (kds ! i)"
  define P where "P = length kds + 2"
  define off where "off = name_bytes (take i kds)"
  define off' where "off' = name_bytes (take (Suc i) kds)"
  have kd: "kds ! i = (key, dg)" by (simp add: key_def dg_def)
  have offd: "name_bytes (take i kds) = off" "name_bytes (take (Suc i) kds) = off'"
    by (simp_all add: off_def off'_def)
  from ok i have dig: "dg < 10" and pl: "plain_name key"
    by (simp_all add: key_def dg_def)
  from b have f: "ptr (state l) = int k" "first_pass (state l) = 0"
    "settings (state l) = init_settings" "uint_max (state l) = - 9"
    "topv l = 1" "rootv l = 1" "alloc l = i + 2" "flags l = {}"
    "heap (memory l) 1 = Some (Node (built_root kds i))"
    "heap (memory l) P = Some (Entries (entries kds i) (written kds off))"
    using i by (simp_all add: building_def built_def P_def off_def)
  from b have ch: "\<And>a. 2 \<le> a \<Longrightarrow> a \<le> length kds + 1 \<Longrightarrow>
           heap (memory l) a = Some (Node (child_node (snd (kds ! (a - 2)))
             (if a \<le> length kds then a + 1 else 0)))"
    by (simp add: building_def built_def)
  have chi: "heap (memory l) (Suc (Suc i)) = Some (Node (child_node dg (if Suc i < length kds then i + 3 else 0)))"
    using ch [of "i + 2"] i by (auto simp: dg_def eval_nat_numeral)
  have o': "off' = off + length key + 1"
    using i by (simp add: off'_def off_def key_def name_bytes_take_Suc)
  have o'le: "off' \<le> name_bytes kds"
    unfolding off'_def by (rule name_bytes_take_le)
  have kl: "length key < 2 ^ 31" "i < 2 ^ 31" "off + length key < name_bytes kds"
    using o' o'le bd i by simp_all
  have dn: "drop off (name_chars kds) = key @ CHR 0x00 # name_chars (drop (Suc i) kds)"
    using drop_name_chars [OF i] by (simp add: off_def key_def)
  have d0: "drop k json = CHR 0x22 # key @ CHR 0x22 # CHR '':'' # digit_char dg # c # rest"
    using d kd by (simp add: member_text_def)
  have d1: "drop (Suc k) json = key @ CHR 0x22 # CHR '':'' # digit_char dg # c # rest"
    using d0 by (simp add: drop_next)
  have d2: "drop (Suc k + length key) json = CHR 0x22 # CHR '':'' # digit_char dg # c # rest"
    using d1 by (metis append_eq_conv_conj drop_drop add.commute)
  have d3: "drop (Suc (Suc k + length key)) json = CHR '':'' # digit_char dg # c # rest"
    using d2 by (simp add: drop_next)
  have d4: "drop (Suc (Suc (Suc k + length key))) json = digit_char dg # c # rest"
    using d3 by (simp add: drop_next)
  have d5: "drop (Suc (Suc (Suc (Suc k + length key)))) json = c # rest"
    using d4 by (simp add: drop_next)
  define l1 where "l1 = advance 1 (l\<lparr>flags := {flag_string}, stringp := (P, off), string_length := 0\<rparr>)"
  have s1: "scan json l = scan json l1"
    unfolding l1_def
    apply (subst scan.simps)
    using f cur_byte_drop [OF d0] offd
    apply (simp add: body_defs built_root_def P_def)
    done
  define l2 where "l2 = l1\<lparr>memory := put_names P (entries kds i) (written kds (off + length key)) (memory l1),
           string_length := of_nat (length key),
           state := (state l1)\<lparr>ptr := int (Suc k + length key)\<rparr>\<rparr>"
  have "scan json l1 = scan json (l1\<lparr>memory := put_names P (entries kds i)
              (written kds (off + unat (string_length l1) + length key)) (memory l1),
           string_length := string_length l1 + of_nat (length key),
           state := (state l1)\<lparr>ptr := int (Suc k + length key)\<rparr>\<rparr>)"
    apply (rule scan_name_building [OF _ d1 pl, where zs = "CHR 0x00 # name_chars (drop (Suc i) kds)"])
    using f kl dn apply (simp_all add: l1_def advance_def)
    done
  then have s2: "scan json l1 = scan json l2"
    by (simp add: l2_def l1_def advance_def)
  have w0: "(written kds (off + length key))[off + length key := Some (CHR 0x00)] = written kds off'"
  proof -
    have "name_chars kds ! (off + length key) = CHR 0x00"
      using dn by (metis nth_via_drop append_eq_conv_conj drop_drop add.commute)
    then show ?thesis using written_update [OF kl(3)] o' by simp
  qed
  have un: "unat (word_of_nat (length key) :: 32 word) = length key"
    "unat (word_of_nat (length key) + 1 :: 32 word) = length key + 1"
    "unat (word_of_nat i :: 32 word) = i"
    using kl by (simp_all add: unat_word_ariths unat_of_nat)
  have nl: "\<not> (- 9 :: 32 word) < word_of_nat (length key)"
    using kl by (simp add: word_less_nat_alt unat_of_nat)
  define m3 where "m3 = set_node 1 ((built_root kds i)\<lparr>reserved := Object_mem P off'\<rparr>)
     (put_names P ((entries kds i)[i := \<lparr>name = Some (P, off),
          name_length = Some (of_nat (length key)), entry_value = None\<rparr>]) (written kds off') (memory l))"
  define l3 where "l3 = advance 1 (l2\<lparr>memory := m3,
     flags := {flag_seek_value, flag_need_colon}, stringp := (0, 0)\<rparr>)"
  have s3: "scan json l2 = scan json l3"
    unfolding l3_def m3_def
    apply (subst scan.simps)
    using f cur_byte_drop [OF d2] nl un kl w0 i entries_nth_empty [OF i] offd(1)
    apply (simp add: l2_def l1_def body2_defs built_root_def P_def o')
    apply (auto intro!: arg_cong [where f = "scan json"] locals.equality)
    done
  define l4 where "l4 = advance 1 (l3\<lparr>flags := {flag_seek_value}\<rparr>)"
  have s4: "scan json l3 = scan json l4"
    unfolding l4_def
    apply (subst scan.simps)
    using f cur_byte_drop [OF d3]
    apply (simp add: l3_def l2_def l1_def body_defs)
    apply (auto intro!: arg_cong [where f = "scan json"] locals.equality)
    done
  have c_props: "\<not> isdigit c" "c \<noteq> CHR ''+''" "c \<noteq> CHR ''-''" "c \<noteq> CHR ''.''" "c \<noteq> CHR ''e''"
    "c \<noteq> CHR ''E''"
    using sep by (auto simp: isdigit_def)
  have nov: "\<not> (- 9 :: 32 word) < word_of_nat i + 1"
    using kl by (simp add: word_less_nat_alt unat_word_ariths unat_of_nat)
  have eu: "(entries kds i)[i := \<lparr>name = Some (P, off),
          name_length = Some (of_nat (length key)), entry_value = Some (Suc (Suc i))\<rparr>] = entries kds (Suc i)"
    using entries_update [OF i] by (simp add: built_entry_def P_def off_def key_def eval_nat_numeral)
  have d5': "drop (4 + (k + length key)) json = c # rest"
    using d5 by (simp add: eval_nat_numeral)
  define m5 where "m5 = set_node 1 ((built_root kds (Suc i))\<lparr>u_length := word_of_nat i + 1\<rparr>)
     (put_names P (entries kds (Suc i)) (written kds off') m3)"
  define l5 where "l5 = advance 1 (l4\<lparr>topv := 1, alloc := (if Suc i < length kds then i + 3 else 0),
     flags := {flag_need_comma}, memory := m5\<rparr>)"
  have s5: "scan json l4 = scan json l5"
    unfolding l5_def m5_def
    apply (subst scan.simps)
    using f cur_byte_drop [OF d4] dig chi c_props nov un i d5' eu offd
    apply (simp add: l4_def l3_def m3_def l2_def l1_def body2_defs built_root_def child_node_def P_def
       nat_add_distrib)
    apply (auto intro!: arg_cong [where f = "scan json"] locals.equality)
    done
  have fin: "building True kds (Suc i) (k + length (fst (kds ! i)) + 4) l5"
    using f ch i offd
    by (simp add: building_def built_def l5_def m5_def l4_def l3_def m3_def l2_def l1_def
        body2_defs key_def P_def built_root_def)
  show ?thesis
    using s1 s2 s3 s4 s5 fin by auto
qed

lemma comma_building:
  assumes b: "building True kds i k l" and d: "drop k json = CHR '','' # rest"
  shows "\<exists>l'. scan json l = scan json l' \<and> building False kds i (Suc k) l'"
proof -
  from b have f: "ptr (state l) = int k" "first_pass (state l) = 0"
    "settings (state l) = init_settings" "topv l = 1"
    "flags l = {flag_need_comma}"
    "heap (memory l) 1 = Some (Node (built_root kds i))"
    by (simp_all add: building_def built_def)
  define l1 where "l1 = advance 1 (l\<lparr>flags := {}\<rparr>)"
  have s1: "scan json l = scan json l1"
    unfolding l1_def
    apply (subst scan.simps)
    using f cur_byte_drop [OF d]
    apply (simp add: body_defs built_root_def)
    done
  have "building False kds i (Suc k) l1"
    using b by (auto simp: building_def l1_def advance_def)
  with s1 show ?thesis by blast
qed

lemma close_building:
  assumes b: "building nc kds i k l" and d: "drop k json = [CHR ''}'']"
  shows "\<exists>l'. scan json l = Some (Break l') \<and> rootv l' = 1 \<and> built kds i (memory l')"
proof -
  from b have f: "ptr (state l) = int k" "first_pass (state l) = 0"
    "settings (state l) = init_settings" "topv l = 1"
    "flags l = (if nc then {flag_need_comma} else {})"
    "heap (memory l) 1 = Some (Node (built_root kds i))"
    by (simp_all add: building_def built_def)
  have len: "length json = Suc k"
  proof -
    have "length (drop k json) = 1" using d by simp
    then show ?thesis by simp
  qed
  define l1 where "l1 = advance 1 (l\<lparr>flags := {flag_done, flag_need_comma}\<rparr>)"
  have s1: "scan json l = scan json l1"
    unfolding l1_def
    apply (subst scan.simps)
    using f cur_byte_drop [OF d]
    apply (simp add: body_defs built_root_def)
    done
  have s2: "scan json l1 = Some (Break l1)"
    apply (subst scan.simps)
    using f len
    apply (simp add: l1_def body_defs cur_byte_def)
    done
  have "rootv l1 = 1 \<and> built kds i (memory l1)"
    using b by (auto simp: building_def l1_def advance_def)
  with s1 s2 show ?thesis by simp
qed

lemma members_building:
  assumes "building False kds i k l" and "drop k json = members_text (drop i kds)"
    and "i \<le> length kds"
    and "\<forall>kd\<in>set kds. snd kd < 10 \<and> plain_name (fst kd)"
    and "24 * length kds + name_bytes kds < 2 ^ 31"
  shows "\<exists>l'. scan json l = Some (Break l') \<and> rootv l' = 1 \<and> built kds (length kds) (memory l')"
  using assms
proof (induction "length kds - i" arbitrary: i k l)
  case 0
  then have i: "i = length kds" by simp
  with 0 show ?case using close_building [of False kds i k l json] by simp
next
  case (Suc n)
  then have i: "i < length kds" by simp
  have dr: "drop i kds = kds ! i # drop (Suc i) kds"
    using i by (simp add: Cons_nth_drop_Suc)
  show ?case
  proof (cases "Suc i = length kds")
    case True
    then have "drop k json = member_text (kds ! i) @ CHR ''}'' # []"
      using Suc.prems(2) dr by simp
    from member_building [OF Suc.prems(1) this _ i Suc.prems(4,5)]
    obtain l1 where l1: "scan json l = scan json l1"
      "building True kds (Suc i) (k + length (fst (kds ! i)) + 4) l1" by auto
    have "drop (k + length (fst (kds ! i)) + 4) json = [CHR ''}'']"
      using drop_member [of k json "kds ! i" "[CHR ''}'']"] Suc.prems(2) dr True by simp
    from close_building [OF l1(2) this] l1(1) True show ?thesis by simp
  next
    case False
    then have i2: "Suc i < length kds" using i by simp
    have dr2: "drop (Suc i) kds = kds ! Suc i # drop (Suc (Suc i)) kds"
      using i2 by (simp add: Cons_nth_drop_Suc)
    have dj: "drop k json = member_text (kds ! i) @ CHR '','' # members_text (drop (Suc i) kds)"
      using Suc.prems(2) dr dr2 by simp
    from member_building [OF Suc.prems(1) dj _ i Suc.prems(4,5)]
    obtain l1 where l1: "scan json l = scan json l1"
      "building True kds (Suc i) (k + length (fst (kds ! i)) + 4) l1" by auto
    have d1: "drop (k + length (fst (kds ! i)) + 4) json = CHR '','' # members_text (drop (Suc i) kds)"
      using drop_member [of k json "kds ! i"] dj by simp
    from comma_building [OF l1(2) d1] obtain l2 where l2: "scan json l1 = scan json l2"
      "building False kds (Suc i) (Suc (k + length (fst (kds ! i)) + 4)) l2" by blast
    have d2: "drop (Suc (k + length (fst (kds ! i)) + 4)) json = members_text (drop (Suc i) kds)"
      using drop_next [OF d1] .
    have "\<exists>l'. scan json l2 = Some (Break l') \<and> rootv l' = 1 \<and> built kds (length kds) (memory l')"
      using Suc.hyps(2) i2 Suc.prems(4,5)
      by (intro Suc.hyps(1) [OF _ l2(2) d2]) simp_all
    then show ?thesis using l1(1) l2(1) by simp
  qed
qed

lemma those_map_Some: "those (map (\<lambda>x. Some (f x)) xs) = Some (map f xs)"
  by (induction xs) simp_all

lemma written_all: "written kds (name_bytes kds) = map Some (name_chars kds)"
  by (simp add: written_def)

lemma entries_all: "entries kds (length kds) = map (built_entry kds) [0..<length kds]"
  by (simp add: entries_def)

lemma sint_digit: "d < 10 \<Longrightarrow> sint (word_of_nat d :: 64 word) = int d"
proof -
  assume "d < 10"
  then have "signed_take_bit 63 (int d) = int d"
    by (intro signed_take_bit_int_eq_self) simp_all
  then show ?thesis by (simp add: signed_of_nat)
qed

lemma read_name:
  assumes b: "built kds (length kds) m" and j: "j < length kds"
    and bd: "name_bytes kds < 2 ^ 31"
  shows "read_chars m (Suc (Suc (length kds)), name_bytes (take j kds))
           (unat (word_of_nat (length (fst (kds ! j))) :: 32 word)) = Some (fst (kds ! j))"
proof -
  let ?key = "fst (kds ! j)"
  have le: "name_bytes (take (Suc j) kds) \<le> name_bytes kds" by (rule name_bytes_take_le)
  then have kl: "name_bytes (take j kds) + length ?key < name_bytes kds"
    using j by (simp add: name_bytes_take_Suc)
  then have un: "unat (word_of_nat (length ?key) :: 32 word) = length ?key"
    using bd by (simp add: unat_of_nat)
  have h: "heap m (Suc (Suc (length kds)))
      = Some (Entries (entries kds (length kds)) (map Some (name_chars kds)))"
    using b by (simp add: built_def written_all)
  have "take (length ?key) (drop (name_bytes (take j kds)) (name_chars kds)) = ?key"
    using drop_name_chars [OF j] by simp
  then have "those (take (length ?key) (drop (name_bytes (take j kds)) (map Some (name_chars kds))))
      = Some ?key"
    by (simp add: drop_map take_map those_map_Some del: those.simps)
  then show ?thesis
    using h kl un by (simp add: read_chars_def)
qed

lemma read_member:
  assumes b: "built kds (length kds) m" and j: "j < length kds"
    and ok: "\<forall>kd\<in>set kds. snd kd < 10"
  shows "tree_of (Suc k) m (Suc (Suc j)) = Some (JInteger (int (snd (kds ! j))))"
proof -
  obtain nxt where "heap m (Suc (Suc j)) = Some (Node (child_node (snd (kds ! j)) nxt))"
    using b j by (auto simp: built_def)
  moreover have "snd (kds ! j) < 10" using ok j by simp
  ultimately show ?thesis
    by (simp add: get_node_def child_node_def sint_digit)
qed

lemma tree_of_built:
  assumes b: "built kds (length kds) m" and ne: "kds \<noteq> []"
    and ok: "\<forall>kd\<in>set kds. snd kd < 10"
    and bd: "length kds < 2 ^ 31" "name_bytes kds < 2 ^ 31"
  shows "tree_of (Suc (Suc k)) m 1 = Some (object_value kds)"
proof -
  let ?n = "length kds"
  have r: "get_node m 1 = Some (built_root kds ?n)"
    using b by (simp add: built_def get_node_def)
  have h: "heap m (?n + 2) = Some (Entries (entries kds ?n) (written kds (name_bytes kds)))"
    using b by (simp add: built_def)
  have un: "unat (word_of_nat ?n :: 32 word) = ?n" "(word_of_nat ?n :: 32 word) \<noteq> 0"
    using bd ne unat_len32 [of ?n] of_nat_neq0 [of ?n] by simp_all
  have v: "map (\<lambda>j. (fst (kds ! j), JInteger (int (snd (kds ! j))))) [0..<?n]
      = map (\<lambda>kd. (fst kd, JInteger (int (snd kd)))) kds"
    by (rule nth_equalityI) simp_all
  show ?thesis
    apply (subst tree_of.simps(2))
    using r h un
    apply (simp add: built_root_def entries_all del: tree_of.simps(2))
    apply (subst map_cong [where g = "\<lambda>j. Some (fst (kds ! j), JInteger (int (snd (kds ! j))))",
          OF refl])
     apply (simp add: built_entry_def read_name [OF b _ bd(2)] read_member [OF b _ ok]
        del: tree_of.simps(2))
    apply (simp add: those_map_Some v object_value_def)
    done
qed

lemma parse_empty_object:
  \<open>parse roomy_settings ''{}'' True empty_mem
     = Some (Returned 1 None (empty_mem\<lparr>alloc_calls := [(40, True)], brk := 2,
          heap := (heap empty_mem)(1 \<mapsto> Node (zero_value\<lparr>vtype := json_object\<rparr>))\<rparr>))\<close>
  by (simp add: eval_simps)

section \<open>Members of an object\<close>



end
